theory Spec2Isabelle
  imports Main "HOL-Library.AList"
begin

unbundle bit_operations_syntax

section \<open>Values of the driver interface (constants.py, types.py)\<close>

text \<open>
  The enumerations of constants.py derive from \<open>FlexIntEnum\<close> and \<open>FlexIntFlag\<close> (util.py):
  every integer is a member (an unknown value gets a member made for it at run time) and
  members compare as integers. They are modelled as \<open>int\<close>.
\<close>

type_synonym PicoStatus = int
type_synonym PicoChannel = int
type_synonym PicoDataType = int
type_synonym PicoRatioMode = int
type_synonym PicoAction = int
type_synonym PicoHandle = int

definition NOT_YET_RUN :: PicoStatus where
  "NOT_YET_RUN = - 1"

definition OK :: PicoStatus where
  "OK = 0"

text \<open>\<open>WAITING_FOR_DATA_BUFFERS = 0x00000197\<close>\<close>

definition WAITING_FOR_DATA_BUFFERS :: PicoStatus where
  "WAITING_FOR_DATA_BUFFERS = 407"

text \<open>\<open>PicoRatioMode.AGGREGATE = 0x00000001\<close>, \<open>PicoRatioMode.RAW = 0x80000000\<close>\<close>

definition AGGREGATE :: PicoRatioMode where
  "AGGREGATE = 1"

definition RAW :: PicoRatioMode where
  "RAW = 2147483648"

definition CLEAR_ALL :: PicoAction where
  "CLEAR_ALL = 1"

definition ADD :: PicoAction where
  "ADD = 2"

text \<open>\<open>PicoHandle.valid\<close>: \<open>return self > 0\<close>\<close>

definition valid :: "PicoHandle \<Rightarrow> bool" where
  "valid h = (h > 0)"

section \<open>Exceptions (exceptions.py)\<close>

text \<open>
  Every exception the modelled code can raise is a value. \<open>PicoStatusError\<close> carries the
  status, \<open>PicoHandleError\<close> the stored handle and its message. The messages of
  \<open>ValueError\<close> and \<open>TypeError\<close> are the fixed part of the source's message (the source
  appends the two differing values to the \<open>ValueError\<close> ones).
\<close>

datatype error =
    PicoStatusError PicoStatus
  | PicoHandleError "PicoHandle option" string
  | ValueError string
  | TypeError string
  | RuntimeError string
  | KeyError
  | AttributeError

text \<open>\<open>PicoStatusError.__init__\<close>: the constructor itself raises for \<open>PicoStatus.OK\<close>.\<close>

definition PicoStatusError_init :: "PicoStatus \<Rightarrow> error" where
  "PicoStatusError_init status =
     (if status = OK then RuntimeError ''PicoStatus.OK should not cause exception.''
      else PicoStatusError status)"

definition msg_never_opened :: string where
  "msg_never_opened =
     ''Cannot operate without acquiring handle to hardware. Call PS6000A.open_unit first.''"

definition msg_open_failed :: string where
  "msg_open_failed =
     ''Cannot operate without valid handle: hardware failed to to open. Call PS6000A.get_unit_info for details.''"

definition msg_not_found :: string where
  "msg_not_found = ''Cannot operate without valid handle: no hardware found.''"

text \<open>\<open>PicoHandleError.__init__\<close>: three messages, and a \<open>RuntimeError\<close> for a valid handle.\<close>

definition PicoHandleError_init :: "PicoHandle option \<Rightarrow> error" where
  "PicoHandleError_init handle =
     (case handle of
        None \<Rightarrow> PicoHandleError handle msg_never_opened
      | Some h \<Rightarrow>
          if h < 0 then PicoHandleError handle msg_open_failed
          else if h = 0 then PicoHandleError handle msg_not_found
          else RuntimeError ''Valid handle should not cause exception.'')"

section \<open>Buffers (buffers.py)\<close>

datatype BufferMaxMin = Buf_MAX | Buf_MIN

text \<open>
  A ctypes array, as far as the code looks at it: its address (\<open>addressof\<close>), its number
  of elements (\<open>len\<close>) and the size of one element, so that \<open>sizeof\<close> is their product.
\<close>

record Array =
  address :: nat
  n_elems :: nat
  itemsize :: nat

definition sizeof :: "Array \<Rightarrow> nat" where
  "sizeof a = n_elems a * itemsize a"

datatype BufferClass = BufferClass (bc_channel: PicoChannel) (bc_datatype: PicoDataType) (bc_segment: int)

record Buffer =
  buffer :: Array
  channel :: PicoChannel
  data_type :: PicoDataType
  segment :: int
  downsampling_mode :: PicoRatioMode
  max_min :: BufferMaxMin

definition buffer_class :: "Buffer \<Rightarrow> BufferClass" where
  "buffer_class b = BufferClass (channel b) (data_type b) (segment b)"

definition samples :: "Buffer \<Rightarrow> nat" where
  "samples b = n_elems (buffer b)"

text \<open>
  \<open>Buffer\<close> is a frozen dataclass whose field \<open>buffer\<close> is declared \<open>compare=False\<close>:
  the generated \<open>__eq__\<close> and \<open>__hash__\<close> look at the other five fields only.
\<close>

type_synonym Buffer_key = "PicoChannel \<times> PicoDataType \<times> int \<times> PicoRatioMode \<times> BufferMaxMin"

definition Buffer_key :: "Buffer \<Rightarrow> Buffer_key" where
  "Buffer_key b = (channel b, data_type b, segment b, downsampling_mode b, max_min b)"

definition Buffer_eq :: "Buffer \<Rightarrow> Buffer \<Rightarrow> bool" where
  "Buffer_eq a b = (Buffer_key a = Buffer_key b)"

text \<open>\<open>PicoStreamingDataInfo(channel, mode, datatype)\<close>, the fields set before a poll.\<close>

datatype PicoStreamingDataInfo = PicoStreamingDataInfo PicoChannel PicoRatioMode PicoDataType

definition empty_streaming_info :: "Buffer \<Rightarrow> PicoStreamingDataInfo" where
  "empty_streaming_info b = PicoStreamingDataInfo (channel b) (downsampling_mode b) (data_type b)"

subsection \<open>Python sets of buffers\<close>

text \<open>
  A \<open>set[Buffer]\<close> is a list of its elements in iteration order, no two of them equal
  under \<open>Buffer_eq\<close>. Python fixes no iteration order for a set, so a property of the
  code has to hold for every order of the list. \<open>set.add\<close> keeps the element that is
  already there, \<open>set.remove\<close> raises \<open>KeyError\<close> when no equal element is there.
\<close>

definition set_add :: "Buffer list \<Rightarrow> Buffer \<Rightarrow> Buffer list" where
  "set_add s b = (if \<exists>x \<in> set s. Buffer_eq x b then s else s @ [b])"

definition set_remove :: "Buffer list \<Rightarrow> Buffer \<Rightarrow> error + Buffer list" where
  "set_remove s b =
     (if \<exists>x \<in> set s. Buffer_eq x b then Inr (filter (\<lambda>x. \<not> Buffer_eq x b) s)
      else Inl KeyError)"

subsection \<open>The registry: a \<open>defaultdict(set)\<close>\<close>

text \<open>
  \<open>buffers: dict[BufferClass, set[Buffer]] = defaultdict(set)\<close>: an association list in
  insertion order. Subscripting a \<open>defaultdict\<close> with a missing key stores the default
  (an empty set) under that key and returns it.
\<close>

type_synonym registry = "(BufferClass \<times> Buffer list) list"

definition dd_getitem :: "registry \<Rightarrow> BufferClass \<Rightarrow> Buffer list \<times> registry" where
  "dd_getitem d k =
     (case map_of d k of
        Some v \<Rightarrow> (v, d)
      | None \<Rightarrow> ([], d @ [(k, [])]))"

text \<open>\<open>d[k].m(...)\<close> for a method \<open>m\<close> that mutates the set found (or made) under \<open>k\<close>.\<close>

definition dd_modify :: "registry \<Rightarrow> BufferClass \<Rightarrow> (Buffer list \<Rightarrow> Buffer list) \<Rightarrow> registry" where
  "dd_modify d k f = (case dd_getitem d k of (v, d1) \<Rightarrow> AList.update k (f v) d1)"

text \<open>All registered buffers, in the order \<open>for bclass in d.values(): for buffer in bclass\<close>.\<close>

definition all_buffers :: "registry \<Rightarrow> Buffer list" where
  "all_buffers d = concat (map snd d)"

section \<open>The session object (ps6000a.py)\<close>

text \<open>
  Effects outside the object are recorded in \<open>trace\<close>, oldest first: a warning given to
  the module's logger, and each call of a function of the device boundary.
\<close>

datatype SetDataBuffersArgs =
  SetDataBuffersArgs PicoHandle PicoChannel "nat option" "nat option" nat PicoDataType int PicoRatioMode PicoAction

datatype event =
    LogWarning string
  | Call_open_unit "string option" int
  | Call_open_unit_async "string option" int
  | Call_open_unit_progress
  | Call_close_unit PicoHandle
  | Call_set_data_buffers SetDataBuffersArgs
  | Call_get_streaming_latest_values PicoHandle "PicoStreamingDataInfo list"

record PS6000A =
  raw_handle :: "PicoHandle option"
  last_status :: PicoStatus
  buffers :: registry
  trace :: "event list"

text \<open>\<open>PS6000A.__init__\<close>\<close>

definition init :: PS6000A where
  "init = \<lparr>raw_handle = None, last_status = NOT_YET_RUN, buffers = [], trace = []\<rparr>"

definition emit :: "event \<Rightarrow> PS6000A \<Rightarrow> PS6000A" where
  "emit e s = s\<lparr>trace := trace s @ [e]\<rparr>"

text \<open>
  A method is a function from the state to its result, \<open>Inl\<close> the exception raised, and
  the state it leaves behind (also when it raises).
\<close>

type_synonym 'a outcome = "(error + 'a) \<times> PS6000A"

text \<open>The property \<open>handle\<close>.\<close>

definition handle :: "PS6000A \<Rightarrow> PicoHandle outcome" where
  "handle s =
     (if raw_handle s \<noteq> None \<and> valid (the (raw_handle s))
      then (Inr (the (raw_handle s)), s)
      else (Inl (PicoHandleError_init (raw_handle s)), s))"

definition verify_status :: "PS6000A \<Rightarrow> PicoStatus \<Rightarrow> unit outcome" where
  "verify_status s status =
     (let s1 = s\<lparr>last_status := status\<rparr>
      in if status \<noteq> OK then (Inl (PicoStatusError_init status), s1) else (Inr (), s1))"

text \<open>
  The device boundary: what the functions of functions.py that only marshal their
  arguments return (\<open>ll.open_unit\<close>, \<open>ll.open_unit_async\<close>, \<open>ll.open_unit_progress\<close>,
  \<open>ll.close_unit\<close>, \<open>ll.get_streaming_latest_values\<close>), and the library function
  \<open>_set_data_buffers\<close> behind \<open>ll.set_data_buffers\<close>, which is modelled below.
  \<open>'r\<close> stands for the two arrays a streaming poll returns.
\<close>

record 'r driver =
  ll_open_unit :: "string option \<Rightarrow> int \<Rightarrow> PicoStatus \<times> PicoHandle"
  ll_open_unit_async :: "string option \<Rightarrow> int \<Rightarrow> PicoStatus \<times> bool"
  ll_open_unit_progress :: "PicoStatus \<times> PicoHandle \<times> int \<times> bool"
  ll_close_unit :: "PicoHandle \<Rightarrow> PicoStatus"
  dll_set_data_buffers :: "SetDataBuffersArgs \<Rightarrow> PicoStatus"
  ll_get_streaming_latest_values :: "PicoHandle \<Rightarrow> PicoStreamingDataInfo list \<Rightarrow> PicoStatus \<times> 'r"

subsection \<open>Opening and closing\<close>

definition close_unit :: "'r driver \<Rightarrow> PS6000A \<Rightarrow> unit outcome" where
  "close_unit drv s =
     (case handle s of
        (Inl e, s1) \<Rightarrow> (Inl e, s1)
      | (Inr h, s1) \<Rightarrow>
          (case verify_status (emit (Call_close_unit h) s1) (ll_close_unit drv h) of
             (Inl e, s2) \<Rightarrow> (Inl e, s2)
           | (Inr _, s2) \<Rightarrow> (Inr (), s2\<lparr>raw_handle := None\<rparr>)))"

definition open_unit :: "'r driver \<Rightarrow> PS6000A \<Rightarrow> string option \<Rightarrow> int \<Rightarrow> bool outcome" where
  "open_unit drv s serial resolution =
     (case (if raw_handle s \<noteq> None \<and> valid (the (raw_handle s))
            then close_unit drv (emit (LogWarning ''open_unit called while a unit is already open.'') s)
            else (Inr (), s)) of
        (Inl e, s1) \<Rightarrow> (Inl e, s1)
      | (Inr _, s1) \<Rightarrow>
          (case ll_open_unit drv serial resolution of
             (status, h) \<Rightarrow>
               (case verify_status (emit (Call_open_unit serial resolution) s1) status of
                  (Inl e, s2) \<Rightarrow> (Inl e, s2)
                | (Inr _, s2) \<Rightarrow> (Inr (valid h), s2\<lparr>raw_handle := Some h\<rparr>))))"

definition open_unit_async :: "'r driver \<Rightarrow> PS6000A \<Rightarrow> string option \<Rightarrow> int \<Rightarrow> bool outcome" where
  "open_unit_async drv s serial resolution =
     (let s1 = (if raw_handle s \<noteq> None \<and> valid (the (raw_handle s))
                then emit (LogWarning ''open_unit_async called while a unit is already open.'') s
                else s)
      in case ll_open_unit_async drv serial resolution of
           (status, status2) \<Rightarrow>
             (case verify_status (emit (Call_open_unit_async serial resolution) s1) status of
                (Inl e, s2) \<Rightarrow> (Inl e, s2)
              | (Inr _, s2) \<Rightarrow> (Inr status2, s2)))"

definition open_unit_progress :: "'r driver \<Rightarrow> PS6000A \<Rightarrow> bool outcome" where
  "open_unit_progress drv s =
     (case (if raw_handle s \<noteq> None \<and> valid (the (raw_handle s))
            then close_unit drv (emit (LogWarning ''open_unit_progress called while a unit is already open.'') s)
            else (Inr (), s)) of
        (Inl e, s1) \<Rightarrow> (Inl e, s1)
      | (Inr _, s1) \<Rightarrow>
          (case ll_open_unit_progress drv of
             (status, h, progress, complete) \<Rightarrow>
               (case verify_status (emit Call_open_unit_progress s1) status of
                  (Inl e, s2) \<Rightarrow> (Inl e, s2)
                | (Inr _, s2) \<Rightarrow>
                    (Inr (complete \<and> valid h),
                     if complete then s2\<lparr>raw_handle := Some h\<rparr> else s2))))"

subsection \<open>Registering and clearing buffers\<close>

text \<open>
  \<open>sizeof(data_type.ctype)\<close>: the property \<open>ctype\<close> raises \<open>ValueError\<close> for a data type
  outside its table (\<open>c_int8\<close>, \<open>c_int16\<close>, \<open>c_int32\<close>, \<open>c_uint32\<close>, \<open>c_int64\<close>).
\<close>

definition ctype_sizeof :: "PicoDataType \<Rightarrow> error + nat" where
  "ctype_sizeof dtype =
     (if dtype = 0 then Inr 1
      else if dtype = 1 then Inr 2
      else if dtype = 2 then Inr 4
      else if dtype = 3 then Inr 4
      else if dtype = 4 then Inr 8
      else Inl (ValueError ''No known ctype for PicoDataType''))"

text \<open>
  \<open>ll.set_data_buffers\<close> (functions.py): checks the two arrays, then calls the library
  with their addresses and the length of the MAX array.
\<close>

definition ll_set_data_buffers ::
  "'r driver \<Rightarrow> PS6000A \<Rightarrow> PicoHandle \<Rightarrow> PicoChannel \<Rightarrow> Array option \<Rightarrow> Array option \<Rightarrow>
   PicoDataType \<Rightarrow> int \<Rightarrow> PicoRatioMode \<Rightarrow> PicoAction \<Rightarrow> PicoStatus outcome" where
  "ll_set_data_buffers drv s h chan buffer_max buffer_min dtype waveform mode action =
     (let call = (\<lambda>max_ptr min_ptr n.
            let args = SetDataBuffersArgs h chan max_ptr min_ptr n dtype waveform mode action
            in (Inr (dll_set_data_buffers drv args), emit (Call_set_data_buffers args) s))
      in if buffer_min \<noteq> None \<and> buffer_max = None
         then (Inl (TypeError ''Cannot set min buffer without max buffer.''), s)
         else case buffer_max of
           None \<Rightarrow> call None None 0
         | Some bmax \<Rightarrow>
             (case ctype_sizeof dtype of
                Inl e \<Rightarrow> (Inl e, s)
              | Inr sz \<Rightarrow>
                  if sizeof bmax \<noteq> n_elems bmax * sz
                  then (Inl (TypeError ''Buffer (max) size mismatch, is data type wrong?''), s)
                  else case buffer_min of
                    None \<Rightarrow> call (Some (address bmax)) None (n_elems bmax)
                  | Some bmin \<Rightarrow>
                      if n_elems bmax \<noteq> n_elems bmin
                      then (Inl (TypeError ''Buffer min vs. max size mismatch.''), s)
                      else if sizeof bmin \<noteq> n_elems bmax * sz
                      then (Inl (TypeError ''Buffer (min) size mismatch, is data type wrong?''), s)
                      else call (Some (address bmax)) (Some (address bmin)) (n_elems bmax)))"

text \<open>
  The last statements of \<open>set_data_buffers\<close>, on the registry: clear the set of the class
  if asked to, add the MAX buffer, add the MIN buffer if there is one.
\<close>

definition store_buffers :: "registry \<Rightarrow> Buffer \<Rightarrow> Buffer option \<Rightarrow> bool \<Rightarrow> registry" where
  "store_buffers d buffer_max buffer_min clear_others =
     (let bc = buffer_class buffer_max;
          d1 = (if clear_others then dd_modify d bc (\<lambda>_. []) else d);
          d2 = dd_modify d1 bc (\<lambda>v. set_add v buffer_max)
      in case buffer_min of
           None \<Rightarrow> d2
         | Some bmin \<Rightarrow> dd_modify d2 bc (\<lambda>v. set_add v bmin))"

definition set_data_buffers ::
  "'r driver \<Rightarrow> PS6000A \<Rightarrow> Buffer \<Rightarrow> Buffer option \<Rightarrow> bool \<Rightarrow> unit outcome" where
  "set_data_buffers drv s buffer_max buffer_min clear_others =
     (if buffer_min \<noteq> None \<and> buffer_class (the buffer_min) \<noteq> buffer_class buffer_max
      then (Inl (ValueError ''Both min and max buffers must have same buffer class.''), s)
      else if buffer_min \<noteq> None
              \<and> downsampling_mode (the buffer_min) \<noteq> downsampling_mode buffer_max
      then (Inl (ValueError ''Both min and max buffers must have same downsampling mode.''), s)
      else
        case handle s of
          (Inl e, s1) \<Rightarrow> (Inl e, s1)
        | (Inr h, s1) \<Rightarrow>
            (case ll_set_data_buffers drv s1 h (channel buffer_max) (Some (buffer buffer_max))
                    (map_option buffer buffer_min) (data_type buffer_max) (segment buffer_max)
                    (downsampling_mode buffer_max)
                    (if clear_others then ADD OR CLEAR_ALL else ADD) of
               (Inl e, s2) \<Rightarrow> (Inl e, s2)
             | (Inr status, s2) \<Rightarrow>
                 (case verify_status s2 status of
                    (Inl e, s3) \<Rightarrow> (Inl e, s3)
                  | (Inr _, s3) \<Rightarrow>
                      (Inr (),
                       s3\<lparr>buffers := store_buffers (buffers s3) buffer_max buffer_min clear_others\<rparr>))))"

definition clear_data_buffers ::
  "'r driver \<Rightarrow> PS6000A \<Rightarrow> PicoChannel \<Rightarrow> PicoDataType \<Rightarrow> int \<Rightarrow> unit outcome" where
  "clear_data_buffers drv s chan dtype seg =
     (case handle s of
        (Inl e, s1) \<Rightarrow> (Inl e, s1)
      | (Inr h, s1) \<Rightarrow>
          (case ll_set_data_buffers drv s1 h chan None None dtype seg RAW CLEAR_ALL of
             (Inl e, s2) \<Rightarrow> (Inl e, s2)
           | (Inr status, s2) \<Rightarrow>
               (case verify_status s2 status of
                  (Inl e, s3) \<Rightarrow> (Inl e, s3)
                | (Inr _, s3) \<Rightarrow>
                    (Inr (),
                     s3\<lparr>buffers := dd_modify (buffers s3) (BufferClass chan dtype seg) (\<lambda>_. [])\<rparr>))))"

subsection \<open>Queries\<close>

definition get_existing_data_buffers ::
  "PS6000A \<Rightarrow> PicoChannel \<Rightarrow> PicoDataType \<Rightarrow> int \<Rightarrow> (Buffer list) outcome" where
  "get_existing_data_buffers s chan dtype seg =
     (case dd_getitem (buffers s) (BufferClass chan dtype seg) of
        (v, d) \<Rightarrow> (Inr v, s\<lparr>buffers := d\<rparr>))"

text \<open>\<open>if cond: out.remove(buffer)\<close>, after an earlier statement that may have raised.\<close>

definition remove_if :: "bool \<Rightarrow> Buffer \<Rightarrow> error + Buffer list \<Rightarrow> error + Buffer list" where
  "remove_if cond b r =
     (case r of Inl e \<Rightarrow> Inl e | Inr out \<Rightarrow> if cond then set_remove out b else Inr out)"

text \<open>The body of the inner loop of \<open>get_all_existing_data_buffers\<close>: one add, three tests.\<close>

definition gaedb_body ::
  "PicoChannel option \<Rightarrow> PicoDataType option \<Rightarrow> int option \<Rightarrow> Buffer \<Rightarrow> Buffer list \<Rightarrow>
   error + Buffer list" where
  "gaedb_body chan dtype seg b out =
     remove_if (seg \<noteq> None \<and> segment b \<noteq> the seg) b
       (remove_if (dtype \<noteq> None \<and> data_type b \<noteq> the dtype) b
          (remove_if (chan \<noteq> None \<and> channel b \<noteq> the chan) b
             (Inr (set_add out b))))"

fun gaedb_inner ::
  "PicoChannel option \<Rightarrow> PicoDataType option \<Rightarrow> int option \<Rightarrow> Buffer list \<Rightarrow> Buffer list \<Rightarrow>
   error + Buffer list" where
  "gaedb_inner chan dtype seg [] out = Inr out"
| "gaedb_inner chan dtype seg (b # bs) out =
     (case gaedb_body chan dtype seg b out of
        Inl e \<Rightarrow> Inl e
      | Inr out1 \<Rightarrow> gaedb_inner chan dtype seg bs out1)"

fun gaedb_outer ::
  "PicoChannel option \<Rightarrow> PicoDataType option \<Rightarrow> int option \<Rightarrow> Buffer list list \<Rightarrow>
   Buffer list \<Rightarrow> error + Buffer list" where
  "gaedb_outer chan dtype seg [] out = Inr out"
| "gaedb_outer chan dtype seg (bclass # rest) out =
     (case gaedb_inner chan dtype seg bclass out of
        Inl e \<Rightarrow> Inl e
      | Inr out1 \<Rightarrow> gaedb_outer chan dtype seg rest out1)"

definition get_all_existing_data_buffers ::
  "PS6000A \<Rightarrow> PicoChannel option \<Rightarrow> PicoDataType option \<Rightarrow> int option \<Rightarrow> (Buffer list) outcome" where
  "get_all_existing_data_buffers s chan dtype seg =
     (case gaedb_outer chan dtype seg (map snd (buffers s)) [] of
        Inl e \<Rightarrow> (Inl e, s)
      | Inr out \<Rightarrow> (Inr out, s))"

subsection \<open>Pairing\<close>

text \<open>
  \<open>pairs = defaultdict(lambda: [None, None])\<close>, keyed by channel, data type, segment and
  downsampling mode; a value is the two slots of the list.
\<close>

type_synonym pair_key = "PicoChannel \<times> PicoDataType \<times> int \<times> PicoRatioMode"
type_synonym slots = "Buffer option \<times> Buffer option"

definition pairs_getitem :: "(pair_key \<times> slots) list \<Rightarrow> pair_key \<Rightarrow> slots \<times> (pair_key \<times> slots) list" where
  "pairs_getitem p k =
     (case map_of p k of
        Some v \<Rightarrow> (v, p)
      | None \<Rightarrow> ((None, None), p @ [(k, (None, None))]))"

text \<open>\<open>pairs[key][0] = buffer\<close>\<close>

definition pairs_set0 :: "(pair_key \<times> slots) list \<Rightarrow> pair_key \<Rightarrow> Buffer \<Rightarrow> (pair_key \<times> slots) list" where
  "pairs_set0 p k b =
     (case pairs_getitem p k of ((slot0, slot1), p1) \<Rightarrow> AList.update k (Some b, slot1) p1)"

text \<open>
  The body of the first loop. Both branches of the source store into slot 0. Its third
  branch (\<open>raise TypeError\<close>) needs a third member of \<open>BufferMaxMin\<close>; there is none.
\<close>

definition pairs_body :: "Buffer \<Rightarrow> (pair_key \<times> slots) list \<Rightarrow> (pair_key \<times> slots) list" where
  "pairs_body b p =
     (let key = (channel b, data_type b, segment b, downsampling_mode b)
      in case max_min b of
           Buf_MAX \<Rightarrow> pairs_set0 p key b
         | Buf_MIN \<Rightarrow> pairs_set0 p key b)"

definition pairs_of :: "registry \<Rightarrow> (pair_key \<times> slots) list" where
  "pairs_of d = fold (\<lambda>bclass p. fold pairs_body bclass p) (map snd d) []"

text \<open>Equality of the returned tuples: \<open>Buffer.__eq__\<close> on each component, \<open>None\<close> equal to itself only.\<close>

definition pair_eq :: "Buffer \<times> Buffer option \<Rightarrow> Buffer \<times> Buffer option \<Rightarrow> bool" where
  "pair_eq x y =
     (Buffer_eq (fst x) (fst y) \<and>
      (case (snd x, snd y) of
         (None, None) \<Rightarrow> True
       | (Some a, Some b) \<Rightarrow> Buffer_eq a b
       | _ \<Rightarrow> False))"

definition out_add :: "(Buffer \<times> Buffer option) list \<Rightarrow> Buffer \<times> Buffer option \<Rightarrow> (Buffer \<times> Buffer option) list" where
  "out_add out x = (if \<exists>y \<in> set out. pair_eq y x then out else out @ [x])"

fun pairs_collect ::
  "slots list \<Rightarrow> (Buffer \<times> Buffer option) list \<Rightarrow> PS6000A \<Rightarrow> (Buffer \<times> Buffer option) list \<times> PS6000A" where
  "pairs_collect [] out s = (out, s)"
| "pairs_collect ((buffer_max, buffer_min) # rest) out s =
     (case buffer_max of
        None \<Rightarrow> pairs_collect rest out (emit (LogWarning ''No max buffer matching min buffer'') s)
      | Some bmax \<Rightarrow> pairs_collect rest (out_add out (bmax, buffer_min)) s)"

text \<open>The three parameters are not used by the source: it pairs the buffers of every class.\<close>

definition get_existing_data_buffer_pairs ::
  "PS6000A \<Rightarrow> PicoChannel \<Rightarrow> PicoDataType \<Rightarrow> int \<Rightarrow> ((Buffer \<times> Buffer option) list) outcome" where
  "get_existing_data_buffer_pairs s chan dtype seg =
     (case pairs_collect (map snd (pairs_of (buffers s))) [] s of
        (out, s1) \<Rightarrow> (Inr out, s1))"

subsection \<open>Streaming poll\<close>

definition get_streaming_latest_values ::
  "'r driver \<Rightarrow> PS6000A \<Rightarrow> PicoStreamingDataInfo list option \<Rightarrow> (bool \<times> 'r) outcome" where
  "get_streaming_latest_values drv s streaming_data_info =
     (case handle s of
        (Inl e, s1) \<Rightarrow> (Inl e, s1)
      | (Inr h, s1) \<Rightarrow>
          (case (case streaming_data_info of
                   Some infos \<Rightarrow> (Inr infos, s1)
                 | None \<Rightarrow>
                     (case get_all_existing_data_buffers s1 None None (Some 0) of
                        (Inl e, s2) \<Rightarrow> (Inl e, s2)
                      | (Inr bufs, s2) \<Rightarrow> (Inr (map empty_streaming_info bufs), s2))) of
             (Inl e, s2) \<Rightarrow> (Inl e, s2)
           | (Inr infos, s2) \<Rightarrow>
               (case ll_get_streaming_latest_values drv h infos of
                  (status, arrays) \<Rightarrow>
                    (let s3 = (emit (Call_get_streaming_latest_values h infos) s2)\<lparr>last_status := status\<rparr>
                     in if status \<noteq> OK \<and> status \<noteq> WAITING_FOR_DATA_BUFFERS
                        then (Inl (PicoStatusError_init status), s3)
                        else (Inr (status = WAITING_FOR_DATA_BUFFERS, arrays), s3)))))"

section \<open>Callback trampolines (callbacks.py)\<close>







section \<open>Predicates used in the statements\<close>

text \<open>The errors raised by a local check of the arguments, not by the device or the handle.\<close>

definition is_validation_error :: "error \<Rightarrow> bool" where
  "is_validation_error e = (case e of ValueError _ \<Rightarrow> True | TypeError _ \<Rightarrow> True | _ \<Rightarrow> False)"

text \<open>The error of the handle accessor.\<close>

definition is_handle_error :: "error \<Rightarrow> bool" where
  "is_handle_error e = (case e of PicoHandleError _ _ \<Rightarrow> True | _ \<Rightarrow> False)"

text \<open>The session holds a valid handle.\<close>

definition is_open :: "PS6000A \<Rightarrow> bool" where
  "is_open s = (raw_handle s \<noteq> None \<and> valid (the (raw_handle s)))"


text \<open>
  What Python's \<open>dict\<close> and \<open>set\<close> guarantee (keys occur once; no two elements of a set are
  equal), and what the code keeps: a buffer is stored under its own class.
\<close>

definition registry_ok :: "registry \<Rightarrow> bool" where
  "registry_ok d =
     (distinct (map fst d) \<and>
      list_all (\<lambda>(k, v). distinct (map Buffer_key v) \<and> list_all (\<lambda>b. buffer_class b = k) v) d)"

text \<open>How many of the given filters a buffer fails.\<close>

definition mismatches :: "PicoChannel option \<Rightarrow> PicoDataType option \<Rightarrow> int option \<Rightarrow> Buffer \<Rightarrow> nat" where
  "mismatches chan dtype seg b =
     (if chan \<noteq> None \<and> channel b \<noteq> the chan then 1 else 0) +
     (if dtype \<noteq> None \<and> data_type b \<noteq> the dtype then 1 else 0) +
     (if seg \<noteq> None \<and> segment b \<noteq> the seg then 1 else 0)"

definition matches :: "PicoChannel option \<Rightarrow> PicoDataType option \<Rightarrow> int option \<Rightarrow> Buffer \<Rightarrow> bool" where
  "matches chan dtype seg b = (mismatches chan dtype seg b = 0)"



section \<open>Example data\<close>

text \<open>
  Two buffers as \<open>get_data_buffers\<close> makes them (same class, same mode, same length, one
  MAX and one MIN), a buffer of another class, a device that answers every call with a
  given status, and an open session holding the three buffers.
\<close>

definition ex_max :: Buffer where
  "ex_max = \<lparr>buffer = \<lparr>address = 4096, n_elems = 8, itemsize = 1\<rparr>, channel = 0, data_type = 0,
     segment = 0, downsampling_mode = AGGREGATE, max_min = Buf_MAX\<rparr>"

definition ex_min :: Buffer where
  "ex_min = \<lparr>buffer = \<lparr>address = 8192, n_elems = 8, itemsize = 1\<rparr>, channel = 0, data_type = 0,
     segment = 0, downsampling_mode = AGGREGATE, max_min = Buf_MIN\<rparr>"

definition ex_other :: Buffer where
  "ex_other = \<lparr>buffer = \<lparr>address = 12288, n_elems = 8, itemsize = 2\<rparr>, channel = 1, data_type = 1,
     segment = 0, downsampling_mode = RAW, max_min = Buf_MAX\<rparr>"

definition answering :: "PicoStatus \<Rightarrow> unit driver" where
  "answering status =
     \<lparr>ll_open_unit = (\<lambda>_ _. (status, 1)), ll_open_unit_async = (\<lambda>_ _. (status, True)),
      ll_open_unit_progress = (status, 1, 100, True), ll_close_unit = (\<lambda>_. status),
      dll_set_data_buffers = (\<lambda>_. status),
      ll_get_streaming_latest_values = (\<lambda>_ _. (status, ()))\<rparr>"

definition ex_session :: PS6000A where
  "ex_session =
     \<lparr>raw_handle = Some 1, last_status = OK,
      buffers = [(BufferClass 0 0 0, [ex_max, ex_min]), (BufferClass 1 1 0, [ex_other])],
      trace = []\<rparr>"

text \<open>An open session holding the buffer of the other class only.\<close>

definition ex_session_other :: PS6000A where
  "ex_session_other =
     \<lparr>raw_handle = Some 1, last_status = OK,
      buffers = [(BufferClass 1 1 0, [ex_other])],
      trace = []\<rparr>"

text \<open>A MIN buffer like \<open>ex_min\<close> but one sample longer.\<close>

definition ex_min_longer :: Buffer where
  "ex_min_longer = ex_min\<lparr>buffer := \<lparr>address = 8192, n_elems = 9, itemsize = 1\<rparr>\<rparr>"



section \<open>Basic facts about the operations\<close>

lemmas ex_defs = ex_max_def ex_min_def ex_other_def ex_session_def answering_def init_def
  OK_def RAW_def AGGREGATE_def ADD_def CLEAR_ALL_def NOT_YET_RUN_def WAITING_FOR_DATA_BUFFERS_def

lemmas eval_defs = set_data_buffers_def clear_data_buffers_def handle_def valid_def
  ll_set_data_buffers_def ctype_sizeof_def sizeof_def verify_status_def PicoStatusError_init_def
  store_buffers_def dd_modify_def dd_getitem_def set_add_def Buffer_eq_def Buffer_key_def
  buffer_class_def emit_def Let_def samples_def is_open_def get_existing_data_buffers_def

lemma handle_snd: "snd (handle s) = s"
  by (simp add: handle_def)

lemma handle_Inr: "handle s = (Inr h, s1) \<Longrightarrow> s1 = s \<and> raw_handle s = Some h \<and> 0 < h"
  by (auto simp: handle_def valid_def split: if_splits)

lemma handle_Inl: "handle s = (Inl e, s1) \<Longrightarrow> s1 = s \<and> e = PicoHandleError_init (raw_handle s) \<and> \<not> (raw_handle s \<noteq> None \<and> valid (the (raw_handle s)))"
  by (auto simp: handle_def split: if_splits)

lemma handle_valid: "raw_handle s = Some h \<Longrightarrow> 0 < h \<Longrightarrow> handle s = (Inr h, s)"
  by (simp add: handle_def valid_def)

lemma verify_status_buffers: "buffers (snd (verify_status s st)) = buffers s"
  by (simp add: verify_status_def Let_def)

lemma verify_status_Inr: "verify_status s st = (Inr u, s1) \<Longrightarrow> st = OK \<and> s1 = s\<lparr>last_status := OK\<rparr>"
  by (auto simp: verify_status_def Let_def split: if_splits)

lemma verify_status_Inl: "verify_status s st = (Inl e, s1) \<Longrightarrow> st \<noteq> OK \<and> e = PicoStatusError st \<and> s1 = s\<lparr>last_status := st\<rparr>"
  by (auto simp: verify_status_def PicoStatusError_init_def Let_def split: if_splits)



lemma is_validation_error_simps [simp]:
  "is_validation_error (ValueError m)"
  "is_validation_error (TypeError m)"
  "\<not> is_validation_error (PicoStatusError st)"
  "\<not> is_validation_error (PicoHandleError ho m)"
  "\<not> is_validation_error (RuntimeError m)"
  "\<not> is_validation_error KeyError"
  by (simp_all add: is_validation_error_def)

lemma ctype_sizeof_Inl: "ctype_sizeof dt = Inl e \<Longrightarrow> is_validation_error e"
  by (auto simp: ctype_sizeof_def split: if_splits)

lemma ll_set_data_buffers_buffers:
  "buffers (snd (ll_set_data_buffers drv s h c bmax bmin dt w m a)) = buffers s"
  by (simp add: ll_set_data_buffers_def Let_def emit_def split: option.splits sum.splits)

lemma ll_set_data_buffers_Inl:
  "ll_set_data_buffers drv s h c bmax bmin dt w m a = (Inl e, s1) \<Longrightarrow> s1 = s \<and> is_validation_error e"
  by (auto simp: ll_set_data_buffers_def Let_def split: option.splits sum.splits if_splits
      dest: ctype_sizeof_Inl)

lemma ll_set_data_buffers_Inr:
  "ll_set_data_buffers drv s h c bmax bmin dt w m a = (Inr st, s1) \<Longrightarrow>
     \<exists>args. st = dll_set_data_buffers drv args \<and> s1 = emit (Call_set_data_buffers args) s"
  by (auto simp: ll_set_data_buffers_def Let_def split: option.splits sum.splits if_splits)

lemma ll_set_data_buffers_len:
  "n_elems x \<noteq> n_elems y \<Longrightarrow>
     \<exists>e. ll_set_data_buffers drv s h c (Some x) (Some y) dt w m a = (Inl e, s) \<and> is_validation_error e"
  by (auto simp: ll_set_data_buffers_def Let_def split: option.splits sum.splits if_splits
      dest: ctype_sizeof_Inl)



lemma ll_set_data_buffers_cases:
  obtains (fails) e where "ll_set_data_buffers drv s h c bmax bmin dt w m a = (Inl e, s)" "is_validation_error e"
  | (calls) args where "ll_set_data_buffers drv s h c bmax bmin dt w m a
         = (Inr (dll_set_data_buffers drv args), emit (Call_set_data_buffers args) s)"
proof (cases "ll_set_data_buffers drv s h c bmax bmin dt w m a")
  case (Pair r s1)
  show ?thesis
  proof (cases r)
    case (Inl e)
    with Pair ll_set_data_buffers_Inl[of drv s h c bmax bmin dt w m a e s1] fails show ?thesis by simp
  next
    case (Inr st)
    with Pair ll_set_data_buffers_Inr[of drv s h c bmax bmin dt w m a st s1] calls show ?thesis by auto
  qed
qed

lemma clear_data_buffers_flat:
  "clear_data_buffers drv s c d g =
     (if raw_handle s \<noteq> None \<and> valid (the (raw_handle s)) then
        (let args = SetDataBuffersArgs (the (raw_handle s)) c None None 0 d g RAW CLEAR_ALL;
             st = dll_set_data_buffers drv args;
             s2 = (emit (Call_set_data_buffers args) s)\<lparr>last_status := st\<rparr>
         in if st \<noteq> OK then (Inl (PicoStatusError st), s2)
            else (Inr (), s2\<lparr>buffers := dd_modify (buffers s) (BufferClass c d g) (\<lambda>_. [])\<rparr>))
      else (Inl (PicoHandleError_init (raw_handle s)), s))"
  by (simp add: clear_data_buffers_def handle_def ll_set_data_buffers_def verify_status_def Let_def
      PicoStatusError_init_def emit_def)



lemma set_data_buffers_cases:
  obtains
    (invalid) e where
      "set_data_buffers drv s bmax bmin co = (Inl e, s)" "is_validation_error e"
      "is_open s \<or> (\<exists>b. bmin = Some b \<and> (buffer_class b \<noteq> buffer_class bmax
           \<or> downsampling_mode b \<noteq> downsampling_mode bmax))"
  | (closed)
      "\<not> is_open s" "set_data_buffers drv s bmax bmin co = (Inl (PicoHandleError_init (raw_handle s)), s)"
      "\<forall>b. bmin = Some b \<longrightarrow> buffer_class b = buffer_class bmax \<and> downsampling_mode b = downsampling_mode bmax"
  | (refused) args where
      "is_open s" "dll_set_data_buffers drv args \<noteq> OK"
      "set_data_buffers drv s bmax bmin co =
         (Inl (PicoStatusError (dll_set_data_buffers drv args)),
          (emit (Call_set_data_buffers args) s)\<lparr>last_status := dll_set_data_buffers drv args\<rparr>)"
      "\<forall>b. bmin = Some b \<longrightarrow> buffer_class b = buffer_class bmax
           \<and> downsampling_mode b = downsampling_mode bmax \<and> samples b = samples bmax"
  | (stored) args where
      "is_open s" "dll_set_data_buffers drv args = OK"
      "set_data_buffers drv s bmax bmin co =
         (Inr (), (emit (Call_set_data_buffers args) s)\<lparr>last_status := OK,
                     buffers := store_buffers (buffers s) bmax bmin co\<rparr>)"
      "\<forall>b. bmin = Some b \<longrightarrow> buffer_class b = buffer_class bmax
           \<and> downsampling_mode b = downsampling_mode bmax \<and> samples b = samples bmax"
proof -
  define a where "a = (if co then ADD OR CLEAR_ALL else ADD)"
  define mn where "mn = map_option buffer bmin"
  define h where "h = the (raw_handle s)"
  have body: "set_data_buffers drv s bmax bmin co =
     (if bmin \<noteq> None \<and> buffer_class (the bmin) \<noteq> buffer_class bmax
      then (Inl (ValueError ''Both min and max buffers must have same buffer class.''), s)
      else if bmin \<noteq> None \<and> downsampling_mode (the bmin) \<noteq> downsampling_mode bmax
      then (Inl (ValueError ''Both min and max buffers must have same downsampling mode.''), s)
      else if \<not> is_open s then (Inl (PicoHandleError_init (raw_handle s)), s)
      else
        (case ll_set_data_buffers drv s h (channel bmax) (Some (buffer bmax)) mn
                (data_type bmax) (segment bmax) (downsampling_mode bmax) a of
           (Inl e, s2) \<Rightarrow> (Inl e, s2)
         | (Inr status, s2) \<Rightarrow>
             (case verify_status s2 status of
                (Inl e, s3) \<Rightarrow> (Inl e, s3)
              | (Inr _, s3) \<Rightarrow>
                  (Inr (), s3\<lparr>buffers := store_buffers (buffers s3) bmax bmin co\<rparr>))))"
  proof (cases "is_open s")
    case True
    then have "handle s = (Inr h, s)" by (simp add: handle_def is_open_def h_def)
    with True show ?thesis
      unfolding set_data_buffers_def a_def mn_def by (simp split del: if_split cong: if_cong)
  next
    case False
    then have "handle s = (Inl (PicoHandleError_init (raw_handle s)), s)"
      by (simp add: handle_def is_open_def)
    with False show ?thesis
      unfolding set_data_buffers_def a_def mn_def by (simp split del: if_split cong: if_cong)
  qed
  show ?thesis
  proof (cases "bmin \<noteq> None \<and> buffer_class (the bmin) \<noteq> buffer_class bmax")
    case True
    with body have "set_data_buffers drv s bmax bmin co =
        (Inl (ValueError ''Both min and max buffers must have same buffer class.''), s)"
      by simp
    moreover from True have "is_open s \<or> (\<exists>b. bmin = Some b \<and> (buffer_class b \<noteq> buffer_class bmax
           \<or> downsampling_mode b \<noteq> downsampling_mode bmax))" by auto
    ultimately show ?thesis using invalid by simp
  next
    case c1: False
    show ?thesis
    proof (cases "bmin \<noteq> None \<and> downsampling_mode (the bmin) \<noteq> downsampling_mode bmax")
      case True
      with c1 body have "set_data_buffers drv s bmax bmin co =
          (Inl (ValueError ''Both min and max buffers must have same downsampling mode.''), s)"
        by simp
      moreover from True have "is_open s \<or> (\<exists>b. bmin = Some b \<and> (buffer_class b \<noteq> buffer_class bmax
           \<or> downsampling_mode b \<noteq> downsampling_mode bmax))" by auto
      ultimately show ?thesis using invalid by simp
    next
      case c2: False
      show ?thesis
      proof (cases "is_open s")
        case False
        with c1 c2 body show ?thesis by (intro closed) auto
      next
        case op: True
        have tail: "set_data_buffers drv s bmax bmin co =
          (case ll_set_data_buffers drv s h (channel bmax) (Some (buffer bmax)) mn
                (data_type bmax) (segment bmax) (downsampling_mode bmax) a of
             (Inl e, s2) \<Rightarrow> (Inl e, s2)
           | (Inr status, s2) \<Rightarrow>
               (case verify_status s2 status of
                  (Inl e, s3) \<Rightarrow> (Inl e, s3)
                | (Inr _, s3) \<Rightarrow>
                    (Inr (), s3\<lparr>buffers := store_buffers (buffers s3) bmax bmin co\<rparr>)))"
          by (subst body) (simp only: c1 c2 op if_False not_True_eq_False)
        show ?thesis
        proof (cases rule: ll_set_data_buffers_cases[of drv s h "channel bmax" "Some (buffer bmax)" mn
            "data_type bmax" "segment bmax" "downsampling_mode bmax" a])
          case (fails e)
          with tail op show ?thesis by (intro invalid[of e]) simp_all
        next
          case (calls args)
          have len: "\<forall>b. bmin = Some b \<longrightarrow> samples b = samples bmax"
          proof (intro allI impI)
            fix b assume b: "bmin = Some b"
            show "samples b = samples bmax"
            proof (rule ccontr)
              assume "samples b \<noteq> samples bmax"
              then have "n_elems (buffer bmax) \<noteq> n_elems (buffer b)" by (simp add: samples_def)
              from ll_set_data_buffers_len[OF this, of drv s h "channel bmax" "data_type bmax"
                  "segment bmax" "downsampling_mode bmax" a] calls b
              show False by (simp add: mn_def)
            qed
          qed
          show ?thesis
          proof (cases "dll_set_data_buffers drv args = OK")
            case True
            with op tail calls len c1 c2 show ?thesis
              by (intro stored[of args]) (auto simp: verify_status_def Let_def emit_def)
          next
            case False
            with op tail calls len c1 c2 show ?thesis
              by (intro refused[of args])
                 (auto simp: verify_status_def Let_def emit_def PicoStatusError_init_def)
          qed
        qed
      qed
    qed
  qed
qed


lemma map_of_dd_getitem:
  "map_of (snd (dd_getitem d k)) k' =
     (if k' = k then Some (fst (dd_getitem d k)) else map_of d k')"
  by (auto simp: dd_getitem_def map_of_append map_add_def split: option.splits)

lemma fst_dd_getitem: "fst (dd_getitem d k) = (case map_of d k of Some v \<Rightarrow> v | None \<Rightarrow> [])"
  by (simp add: dd_getitem_def split: option.splits)

lemma map_of_dd_modify:
  "map_of (dd_modify d k f) k' =
     (if k' = k then Some (f (case map_of d k of Some v \<Rightarrow> v | None \<Rightarrow> [])) else map_of d k')"
  by (cases "dd_getitem d k")
     (use map_of_dd_getitem[of d k k'] fst_dd_getitem[of d k] in
       \<open>auto simp: dd_modify_def update_conv\<close>)

lemma get_existing_data_buffers_eq:
  "get_existing_data_buffers s c d g =
     (Inr (case map_of (buffers s) (BufferClass c d g) of Some v \<Rightarrow> v | None \<Rightarrow> []),
      s\<lparr>buffers := snd (dd_getitem (buffers s) (BufferClass c d g))\<rparr>)"
  by (simp add: get_existing_data_buffers_def dd_getitem_def split: option.splits)

text \<open>
  C7. A successful \<open>clear_data_buffers\<close> for a channel, data type and segment leaves
  the registry with the empty set under exactly that class (so the per-class query of it
  is empty) and with the set of every other class as it was.
\<close>

theorem clear_data_buffers_frame:
  assumes "clear_data_buffers drv s chan dtype seg = (Inr (), s')"
  shows "map_of (buffers s') (BufferClass chan dtype seg) = Some []
    \<and> (\<forall>k. k \<noteq> BufferClass chan dtype seg \<longrightarrow> map_of (buffers s') k = map_of (buffers s) k)
    \<and> fst (get_existing_data_buffers s' chan dtype seg) = Inr []"
  using assms
  by (auto simp: clear_data_buffers_flat Let_def map_of_dd_modify get_existing_data_buffers_eq
      split: if_splits)

theorem clear_data_buffers_frame_witness:
  "fst (clear_data_buffers (answering OK) ex_session 0 0 0) = Inr ()
   \<and> map_of (buffers (snd (clear_data_buffers (answering OK) ex_session 0 0 0))) (BufferClass 0 0 0)
       = Some []
   \<and> map_of (buffers (snd (clear_data_buffers (answering OK) ex_session 0 0 0))) (BufferClass 1 1 0)
       = Some [ex_other]"
proof -
  have ok: "fst (clear_data_buffers (answering OK) ex_session 0 0 0) = Inr ()"
    by (simp add: eval_defs ex_session_def answering_def)
  then have "clear_data_buffers (answering OK) ex_session 0 0 0
      = (Inr (), snd (clear_data_buffers (answering OK) ex_session 0 0 0))"
    by (simp add: prod_eq_iff)
  from clear_data_buffers_frame[OF this] ok show ?thesis
    by (simp add: ex_session_def)
qed

text \<open>
  C3, as the claim states it, fails where the two buffers differ in length only and the
  session holds no valid handle: \<open>set_data_buffers\<close> asks for the handle before
  \<open>ll.set_data_buffers\<close> compares the lengths, so the error raised is \<open>PicoHandleError\<close>,
  not a validation error.
\<close>

theorem length_mismatch_counterexample:
  "buffer_class ex_min_longer = buffer_class ex_max
   \<and> downsampling_mode ex_min_longer = downsampling_mode ex_max
   \<and> samples ex_min_longer \<noteq> samples ex_max
   \<and> set_data_buffers (answering OK) init ex_max (Some ex_min_longer) False
       = (Inl (PicoHandleError None msg_never_opened), init)
   \<and> \<not> is_validation_error (PicoHandleError None msg_never_opened)"
  by (simp add: eval_defs ex_defs ex_min_longer_def PicoHandleError_init_def)

text \<open>
  C3, amended. When the MIN buffer passed to \<open>set_data_buffers\<close> differs from the MAX
  buffer in buffer class, in downsampling mode or in length, the call raises and leaves
  the session as it was: neither buffer enters the registry and the device is not
  called. The error is a validation error whenever the session holds a valid handle or
  the buffers differ in class or in mode; when the session holds no valid handle and the
  buffers differ in length only, it is the \<open>PicoHandleError\<close> of the handle accessor.
\<close>

theorem set_data_buffers_rejects_mismatch:
  assumes "buffer_class bmin \<noteq> buffer_class bmax
           \<or> downsampling_mode bmin \<noteq> downsampling_mode bmax
           \<or> samples bmin \<noteq> samples bmax"
  shows "snd (set_data_buffers drv s bmax (Some bmin) co) = s
    \<and> (case fst (set_data_buffers drv s bmax (Some bmin) co) of
          Inr u \<Rightarrow> False
        | Inl e \<Rightarrow>
            if is_open s \<or> buffer_class bmin \<noteq> buffer_class bmax
                 \<or> downsampling_mode bmin \<noteq> downsampling_mode bmax
            then is_validation_error e
            else e = PicoHandleError_init (raw_handle s) \<and> is_handle_error e)"
proof (cases rule: set_data_buffers_cases[of drv s bmax "Some bmin" co])
  case (invalid e)
  then show ?thesis by auto
next
  case closed
  from closed(1) have "is_handle_error (PicoHandleError_init (raw_handle s))"
    by (cases "raw_handle s")
       (auto simp: is_open_def valid_def PicoHandleError_init_def is_handle_error_def)
  with closed show ?thesis by simp
next
  case (refused args)
  with assms show ?thesis by simp
next
  case (stored args)
  with assms show ?thesis by simp
qed

theorem set_data_buffers_rejects_mismatch_witness:
  "samples ex_min_longer \<noteq> samples ex_max
   \<and> set_data_buffers (answering OK) ex_session ex_max (Some ex_min_longer) False
       = (Inl (TypeError ''Buffer min vs. max size mismatch.''), ex_session)"
proof -
  have d: "buffer_class ex_min_longer \<noteq> buffer_class ex_max
     \<or> downsampling_mode ex_min_longer \<noteq> downsampling_mode ex_max
     \<or> samples ex_min_longer \<noteq> samples ex_max"
    by (simp add: samples_def ex_max_def ex_min_def ex_min_longer_def)
  have f: "fst (set_data_buffers (answering OK) ex_session ex_max (Some ex_min_longer) False)
       = Inl (TypeError ''Buffer min vs. max size mismatch.'')"
    by (simp add: eval_defs ex_defs ex_min_longer_def)
  from set_data_buffers_rejects_mismatch[OF d, of "answering OK" ex_session False] f
  show ?thesis by (simp add: prod_eq_iff samples_def ex_max_def ex_min_def ex_min_longer_def)
qed

text \<open>
  C10. Whenever \<open>set_data_buffers\<close> or \<open>clear_data_buffers\<close> raises, the registry is the
  one before the call. If the device answers the registration call with a status other
  than \<open>OK\<close>, both operations raise; \<open>clear_data_buffers\<close> on an open session then raises
  \<open>PicoStatusError\<close> with that status, which is also recorded as \<open>last_status\<close>.
\<close>

theorem registry_unchanged_on_error:
  "(fst (set_data_buffers drv s bmax bmin co) \<noteq> Inr () \<longrightarrow>
      buffers (snd (set_data_buffers drv s bmax bmin co)) = buffers s)
   \<and> (fst (clear_data_buffers drv s chan dtype seg) \<noteq> Inr () \<longrightarrow>
      buffers (snd (clear_data_buffers drv s chan dtype seg)) = buffers s)
   \<and> ((\<forall>args. dll_set_data_buffers drv args = status) \<and> status \<noteq> OK \<longrightarrow>
        fst (set_data_buffers drv s bmax bmin co) \<noteq> Inr ()
        \<and> fst (clear_data_buffers drv s chan dtype seg) \<noteq> Inr ()
        \<and> (is_open s \<longrightarrow>
             clear_data_buffers drv s chan dtype seg =
               (Inl (PicoStatusError status),
                (emit (Call_set_data_buffers
                   (SetDataBuffersArgs (the (raw_handle s)) chan None None 0 dtype seg RAW CLEAR_ALL)) s)
                \<lparr>last_status := status\<rparr>)))"
proof -
  have 1: "fst (set_data_buffers drv s bmax bmin co) \<noteq> Inr () \<longrightarrow>
      buffers (snd (set_data_buffers drv s bmax bmin co)) = buffers s"
    by (cases rule: set_data_buffers_cases[of drv s bmax bmin co]) (simp_all add: emit_def)
  have 2: "fst (clear_data_buffers drv s chan dtype seg) \<noteq> Inr () \<longrightarrow>
      buffers (snd (clear_data_buffers drv s chan dtype seg)) = buffers s"
    by (simp add: clear_data_buffers_flat Let_def emit_def)
  have 3: "fst (set_data_buffers drv s bmax bmin co) \<noteq> Inr ()"
    if "\<forall>args. dll_set_data_buffers drv args = status" "status \<noteq> OK"
    using that by (cases rule: set_data_buffers_cases[of drv s bmax bmin co]) simp_all
  have 4: "fst (clear_data_buffers drv s chan dtype seg) \<noteq> Inr ()"
    if "\<forall>args. dll_set_data_buffers drv args = status" "status \<noteq> OK"
    using that by (simp add: clear_data_buffers_flat Let_def)
  have 5: "clear_data_buffers drv s chan dtype seg =
               (Inl (PicoStatusError status),
                (emit (Call_set_data_buffers
                   (SetDataBuffersArgs (the (raw_handle s)) chan None None 0 dtype seg RAW CLEAR_ALL)) s)
                \<lparr>last_status := status\<rparr>)"
    if "\<forall>args. dll_set_data_buffers drv args = status" "status \<noteq> OK" "is_open s"
    using that by (simp add: clear_data_buffers_flat Let_def is_open_def)
  from 1 2 3 4 5 show ?thesis by blast
qed

theorem registry_unchanged_on_error_witness:
  "fst (set_data_buffers (answering 5) ex_session ex_max (Some ex_min) True) = Inl (PicoStatusError 5)
   \<and> buffers (snd (set_data_buffers (answering 5) ex_session ex_max (Some ex_min) True))
       = buffers ex_session
   \<and> fst (clear_data_buffers (answering 5) ex_session 0 0 0) = Inl (PicoStatusError 5)
   \<and> buffers (snd (clear_data_buffers (answering 5) ex_session 0 0 0)) = buffers ex_session
   \<and> last_status (snd (clear_data_buffers (answering 5) ex_session 0 0 0)) = 5"
proof -
  have 1: "fst (set_data_buffers (answering 5) ex_session ex_max (Some ex_min) True)
      = Inl (PicoStatusError 5)"
    by (simp add: eval_defs ex_defs)
  have 2: "\<forall>args. dll_set_data_buffers (answering 5) args = 5" "(5::int) \<noteq> OK" "is_open ex_session"
    by (simp_all add: answering_def OK_def is_open_def valid_def ex_session_def)
  from registry_unchanged_on_error[of "answering 5" ex_session ex_max "Some ex_min" True 0 0 0 5] 1 2
  show ?thesis by (simp add: emit_def)
qed

section \<open>Facts about the filtered query\<close>

lemma set_add_removed:
  "filter (\<lambda>x. \<not> Buffer_eq x b) (set_add out b) = filter (\<lambda>x. \<not> Buffer_eq x b) out"
  by (simp add: set_add_def Buffer_eq_def)

lemma set_remove_after_add:
  "set_remove (set_add out b) b = Inr (filter (\<lambda>x. \<not> Buffer_eq x b) out)"
  by (auto simp: set_remove_def set_add_def Buffer_eq_def)

lemma set_remove_twice:
  "set_remove (filter (\<lambda>x. \<not> Buffer_eq x b) out) b = Inl KeyError"
  by (auto simp: set_remove_def)

lemma gaedb_body_eq:
  "gaedb_body chan dtype seg b out =
     (if 2 \<le> mismatches chan dtype seg b then Inl KeyError
      else if mismatches chan dtype seg b = 1 then Inr (filter (\<lambda>x. \<not> Buffer_eq x b) out)
      else Inr (set_add out b))"
  by (simp add: gaedb_body_def remove_if_def mismatches_def set_remove_after_add set_remove_twice)

lemma gaedb_outer_concat:
  "gaedb_outer chan dtype seg bss out =
     gaedb_inner chan dtype seg (concat bss) out"
proof (induction bss arbitrary: out)
  case Nil
  show ?case by simp
next
  case (Cons bs bss)
  have app: "gaedb_inner chan dtype seg (xs @ ys) out =
      (case gaedb_inner chan dtype seg xs out of Inl e \<Rightarrow> Inl e
       | Inr out1 \<Rightarrow> gaedb_inner chan dtype seg ys out1)" for xs ys out
    by (induction xs arbitrary: out) (auto split: sum.splits)
  show ?case by (simp add: app Cons.IH split: sum.splits)
qed

lemma gaedb_inner_KeyError:
  "\<exists>b \<in> set bs. 2 \<le> mismatches chan dtype seg b \<Longrightarrow>
     gaedb_inner chan dtype seg bs out = Inl KeyError"
proof (induction bs arbitrary: out)
  case Nil
  then show ?case by simp
next
  case (Cons b bs)
  show ?case
  proof (cases "2 \<le> mismatches chan dtype seg b")
    case True
    then show ?thesis by (simp add: gaedb_body_eq)
  next
    case False
    with Cons.prems have "\<exists>b \<in> set bs. 2 \<le> mismatches chan dtype seg b" by simp
    from Cons.IH[OF this] False show ?thesis by (simp add: gaedb_body_eq)
  qed
qed

lemma gaedb_inner_ok:
  "distinct (map Buffer_key (out @ bs)) \<Longrightarrow>
   \<forall>b \<in> set bs. mismatches chan dtype seg b \<le> 1 \<Longrightarrow>
     gaedb_inner chan dtype seg bs out = Inr (out @ filter (matches chan dtype seg) bs)"
proof (induction bs arbitrary: out)
  case Nil
  then show ?case by simp
next
  case (Cons b bs)
  from Cons.prems(1) have "Buffer_key b \<notin> Buffer_key ` set out" by auto
  then have fresh: "\<forall>x \<in> set out. \<not> Buffer_eq x b"
    by (metis Buffer_eq_def imageI)
  then have keep: "filter (\<lambda>x. \<not> Buffer_eq x b) out = out" and add: "set_add out b = out @ [b]"
    by (auto simp: set_add_def)
  from Cons.prems(2) have le: "mismatches chan dtype seg b \<le> 1"
    and rest: "\<forall>b \<in> set bs. mismatches chan dtype seg b \<le> 1" by simp_all
  show ?case
  proof (cases "mismatches chan dtype seg b = 1")
    case True
    from Cons.prems(1) have "distinct (map Buffer_key (out @ bs))" by simp
    from Cons.IH[OF this rest] True show ?thesis
      by (simp add: gaedb_body_eq keep matches_def)
  next
    case False
    with le have zero: "mismatches chan dtype seg b = 0" by simp
    from Cons.prems(1) have "distinct (map Buffer_key ((out @ [b]) @ bs))" by simp
    from Cons.IH[OF this rest] zero show ?thesis
      by (simp add: gaedb_body_eq add matches_def)
  qed
qed

lemma registry_ok_class:
  "registry_ok d \<Longrightarrow> b \<in> set (all_buffers d) \<Longrightarrow> buffer_class b \<in> fst ` set d"
  by (induction d) (auto simp: registry_ok_def all_buffers_def list_all_iff)

lemma registry_ok_distinct:
  "registry_ok d \<Longrightarrow> distinct (map Buffer_key (all_buffers d))"
proof (induction d)
  case Nil
  show ?case by (simp add: all_buffers_def)
next
  case (Cons kv d)
  obtain k v where kv: "kv = (k, v)" by (cases kv)
  from Cons.prems kv have ok: "registry_ok d" and k: "k \<notin> fst ` set d"
    and v: "distinct (map Buffer_key v)" and cls: "\<forall>b \<in> set v. buffer_class b = k"
    by (auto simp: registry_ok_def list_all_iff)
  have neq: "Buffer_key x \<noteq> Buffer_key y" if "x \<in> set v" "y \<in> set (all_buffers d)" for x y
  proof
    assume "Buffer_key x = Buffer_key y"
    then have "buffer_class x = buffer_class y" by (simp add: Buffer_key_def buffer_class_def)
    with registry_ok_class[OF ok that(2)] cls that(1) k show False by auto
  qed
  have disj: "Buffer_key ` set v \<inter> Buffer_key ` set (all_buffers d) = {}"
  proof (rule ccontr)
    assume "Buffer_key ` set v \<inter> Buffer_key ` set (all_buffers d) \<noteq> {}"
    then obtain x y where "x \<in> set v" "y \<in> set (all_buffers d)" "Buffer_key x = Buffer_key y"
      by (auto simp: image_iff) metis
    with neq show False by blast
  qed
  have "all_buffers (kv # d) = v @ all_buffers d" by (simp add: all_buffers_def kv)
  with Cons.IH[OF ok] v disj show ?case by simp
qed

lemma get_all_existing_data_buffers_eq:
  assumes "registry_ok (buffers s)"
  shows "get_all_existing_data_buffers s chan dtype seg =
     (if \<exists>b \<in> set (all_buffers (buffers s)). 2 \<le> mismatches chan dtype seg b then Inl KeyError
      else Inr (filter (matches chan dtype seg) (all_buffers (buffers s))), s)"
proof (cases "\<exists>b \<in> set (all_buffers (buffers s)). 2 \<le> mismatches chan dtype seg b")
  case True
  from gaedb_inner_KeyError[OF this[unfolded all_buffers_def], of "[]"] True show ?thesis
    by (simp add: get_all_existing_data_buffers_def gaedb_outer_concat all_buffers_def)
next
  case False
  then have le: "\<forall>b \<in> set (all_buffers (buffers s)). mismatches chan dtype seg b \<le> 1"
    by (auto simp: not_le)
  from registry_ok_distinct[OF assms] have "distinct (map Buffer_key ([] @ all_buffers (buffers s)))"
    by simp
  from gaedb_inner_ok[OF this le] False show ?thesis
    by (simp add: get_all_existing_data_buffers_def gaedb_outer_concat all_buffers_def)
qed


section \<open>The invariant of the registry is kept\<close>

lemma registry_ok_iff:
  "registry_ok d =
     (distinct (map fst d) \<and>
      (\<forall>k v. map_of d k = Some v \<longrightarrow>
          distinct (map Buffer_key v) \<and> (\<forall>b \<in> set v. buffer_class b = k)))"
proof (cases "distinct (map fst d)")
  case True
  then have "(k, v) \<in> set d \<longleftrightarrow> map_of d k = Some v" for k v by simp
  with True show ?thesis by (auto simp: registry_ok_def list_all_iff)
next
  case False
  then show ?thesis by (simp add: registry_ok_def)
qed

lemma distinct_dd_getitem:
  "distinct (map fst d) \<Longrightarrow> distinct (map fst (snd (dd_getitem d k)))"
  by (auto simp: dd_getitem_def map_of_eq_None_iff split: option.splits)

lemma registry_ok_dd_modify:
  assumes "registry_ok d"
    and "\<And>v. distinct (map Buffer_key v) \<Longrightarrow> \<forall>b \<in> set v. buffer_class b = k \<Longrightarrow>
           distinct (map Buffer_key (f v)) \<and> (\<forall>b \<in> set (f v). buffer_class b = k)"
  shows "registry_ok (dd_modify d k f)"
proof -
  from assms(1) have d: "distinct (map fst d)"
    and el: "\<And>k v. map_of d k = Some v \<Longrightarrow>
               distinct (map Buffer_key v) \<and> (\<forall>b \<in> set v. buffer_class b = k)"
    by (simp_all add: registry_ok_iff)
  have "distinct (map fst (dd_modify d k f))"
    using distinct_dd_getitem[OF d, of k]
    by (cases "dd_getitem d k") (simp add: dd_modify_def distinct_update)
  moreover have "distinct (map Buffer_key v) \<and> (\<forall>b \<in> set v. buffer_class b = k')"
    if "map_of (dd_modify d k f) k' = Some v" for k' v
  proof (cases "k' = k")
    case True
    with that have v: "v = f (case map_of d k of Some v \<Rightarrow> v | None \<Rightarrow> [])"
      by (simp add: map_of_dd_modify)
    show ?thesis
    proof (cases "map_of d k")
      case None
      with v assms(2)[of "[]"] True show ?thesis by simp
    next
      case (Some w)
      with v assms(2)[of w] el[OF Some] True show ?thesis by simp
    qed
  next
    case False
    with that have "map_of d k' = Some v" by (simp add: map_of_dd_modify)
    from el[OF this] show ?thesis .
  qed
  ultimately show ?thesis by (simp add: registry_ok_iff)
qed

lemma set_add_ok:
  "distinct (map Buffer_key v) \<Longrightarrow> \<forall>x \<in> set v. buffer_class x = k \<Longrightarrow> buffer_class b = k \<Longrightarrow>
     distinct (map Buffer_key (set_add v b)) \<and> (\<forall>x \<in> set (set_add v b). buffer_class x = k)"
proof (cases "\<exists>x \<in> set v. Buffer_eq x b")
  case True
  assume "distinct (map Buffer_key v)" "\<forall>x \<in> set v. buffer_class x = k"
  with True show ?thesis by (simp add: set_add_def)
next
  case False
  assume a: "distinct (map Buffer_key v)" "\<forall>x \<in> set v. buffer_class x = k" "buffer_class b = k"
  from False have "Buffer_key b \<notin> Buffer_key ` set v"
    by (metis Buffer_eq_def imageE)
  with False a show ?thesis by (simp add: set_add_def)
qed

lemma registry_ok_store_buffers:
  assumes "registry_ok d"
    and "\<forall>b. bmin = Some b \<longrightarrow> buffer_class b = buffer_class bmax"
  shows "registry_ok (store_buffers d bmax bmin co)"
proof -
  let ?k = "buffer_class bmax"
  have "registry_ok (dd_modify d ?k (\<lambda>_. []))"
    by (rule registry_ok_dd_modify[OF assms(1)]) simp
  with assms(1) have 1: "registry_ok (if co then dd_modify d ?k (\<lambda>_. []) else d)"
    by simp
  have 2: "registry_ok (dd_modify (if co then dd_modify d ?k (\<lambda>_. []) else d) ?k
              (\<lambda>v. set_add v bmax))"
    by (rule registry_ok_dd_modify[OF 1]) (erule (1) set_add_ok, rule refl)
  show ?thesis
  proof (cases bmin)
    case None
    with 2 show ?thesis by (simp add: store_buffers_def Let_def)
  next
    case (Some b)
    with assms(2) have "buffer_class b = ?k" by simp
    then have "registry_ok (dd_modify (dd_modify (if co then dd_modify d ?k (\<lambda>_. []) else d) ?k
              (\<lambda>v. set_add v bmax)) ?k (\<lambda>v. set_add v b))"
      by (intro registry_ok_dd_modify[OF 2]) (erule (1) set_add_ok)
    with Some show ?thesis by (simp add: store_buffers_def Let_def)
  qed
qed

lemma registry_ok_set_data_buffers:
  assumes "registry_ok (buffers s)"
  shows "registry_ok (buffers (snd (set_data_buffers drv s bmax bmin co)))"
proof (cases rule: set_data_buffers_cases[of drv s bmax bmin co])
  case (invalid e)
  with assms show ?thesis by simp
next
  case closed
  with assms show ?thesis by simp
next
  case (refused args)
  with assms show ?thesis by (simp add: emit_def)
next
  case (stored args)
  from stored(4) have "\<forall>b. bmin = Some b \<longrightarrow> buffer_class b = buffer_class bmax" by blast
  from registry_ok_store_buffers[OF assms this] stored(3) show ?thesis by simp
qed

lemma registry_ok_clear_data_buffers:
  assumes "registry_ok (buffers s)"
  shows "registry_ok (buffers (snd (clear_data_buffers drv s c d g)))"
proof -
  have "registry_ok (dd_modify (buffers s) (BufferClass c d g) (\<lambda>_. []))"
    by (rule registry_ok_dd_modify[OF assms]) simp
  with assms show ?thesis
    by (simp add: clear_data_buffers_flat Let_def emit_def)
qed

lemma registry_ok_get_existing_data_buffers:
  assumes "registry_ok (buffers s)"
  shows "registry_ok (buffers (snd (get_existing_data_buffers s c d g)))"
proof (cases "map_of (buffers s) (BufferClass c d g)")
  case None
  then have "BufferClass c d g \<notin> fst ` set (buffers s)" by (simp add: map_of_eq_None_iff)
  moreover from None have "buffers (snd (get_existing_data_buffers s c d g))
      = buffers s @ [(BufferClass c d g, [])]"
    by (simp add: get_existing_data_buffers_def dd_getitem_def)
  ultimately show ?thesis using assms by (simp add: registry_ok_def)
next
  case (Some v)
  then have "buffers (snd (get_existing_data_buffers s c d g)) = buffers s"
    by (simp add: get_existing_data_buffers_def dd_getitem_def)
  with assms show ?thesis by simp
qed

lemma registry_ok_init: "registry_ok (buffers init)"
  by (simp add: init_def registry_ok_def)

lemma registry_ok_lookup:
  "registry_ok d \<Longrightarrow> b \<in> set (all_buffers d) \<Longrightarrow>
     \<exists>v. map_of d (buffer_class b) = Some v \<and> b \<in> set v"
proof -
  assume ok: "registry_ok d" and "b \<in> set (all_buffers d)"
  then obtain k v where kv: "(k, v) \<in> set d" "b \<in> set v" by (auto simp: all_buffers_def)
  with ok have "buffer_class b = k" "distinct (map fst d)" by (auto simp: registry_ok_def list_all_iff)
  with kv have "map_of d (buffer_class b) = Some v" by simp
  with kv show ?thesis by blast
qed

lemma cleared_class_absent:
  assumes "registry_ok d" "map_of d (BufferClass c dt g) = Some []" "b \<in> set (all_buffers d)"
  shows "\<not> matches (Some c) (Some dt) (Some g) b"
proof
  assume "matches (Some c) (Some dt) (Some g) b"
  then have "channel b = c \<and> data_type b = dt \<and> segment b = g"
    unfolding matches_def mismatches_def
    by (cases "channel b = c"; cases "data_type b = dt"; cases "segment b = g") simp_all
  then have "buffer_class b = BufferClass c dt g"
    by (simp add: buffer_class_def)
  with registry_ok_lookup[OF assms(1,3)] assms(2) show False by simp
qed

section \<open>Queries of the registry\<close>

lemma registry_ok_ex_session: "registry_ok (buffers ex_session)"
  by (simp add: registry_ok_def ex_defs Buffer_key_def buffer_class_def)

text \<open>
  C4, as the claim states it, fails twice. It says that the per-class query
  (\<open>get_existing_data_buffers\<close>) of an unregistered class inserts no key: on a new
  session the query returns the empty set and leaves the class in the registry as a new
  key. It says that the filtered query (\<open>get_all_existing_data_buffers\<close>) completes
  without raising: on a session holding a buffer that fails two of the given filters the
  second \<open>out.remove(buffer)\<close> raises \<open>KeyError\<close>.
\<close>

theorem query_counterexample:
  "buffers init = []
   \<and> get_existing_data_buffers init 0 0 0 = (Inr [], init\<lparr>buffers := [(BufferClass 0 0 0, [])]\<rparr>)
   \<and> registry_ok (buffers ex_session)
   \<and> get_all_existing_data_buffers ex_session (Some 0) (Some 0) None = (Inl KeyError, ex_session)"
proof -
  have "\<exists>b \<in> set (all_buffers (buffers ex_session)). 2 \<le> mismatches (Some 0) (Some 0) None b"
    by (simp add: all_buffers_def ex_defs mismatches_def)
  then have "get_all_existing_data_buffers ex_session (Some 0) (Some 0) None = (Inl KeyError, ex_session)"
    by (simp only: get_all_existing_data_buffers_eq[OF registry_ok_ex_session] if_True)
  moreover have "get_existing_data_buffers init 0 0 0 = (Inr [], init\<lparr>buffers := [(BufferClass 0 0 0, [])]\<rparr>)"
    by (simp add: get_existing_data_buffers_def dd_getitem_def init_def)
  ultimately show ?thesis using registry_ok_ex_session by (simp add: init_def)
qed

text \<open>
  C4, amended. For every registry state the code keeps (\<open>registry_ok\<close>) and every
  combination of the optional filters such that no registered buffer fails more than one
  of the given filters, the filtered query returns without raising exactly the set of
  registered buffers that match every given filter, and leaves the session unchanged.
  The per-class query returns the set registered for the class, empty when there is
  none; when the class is not yet a key of the registry it is inserted as a new key
  holding the empty set, and nothing else changes.
\<close>

theorem queries_amended:
  assumes "registry_ok (buffers s)"
    and "\<forall>b \<in> set (all_buffers (buffers s)). mismatches chan dtype seg b \<le> 1"
  shows "snd (get_all_existing_data_buffers s chan dtype seg) = s
    \<and> (case fst (get_all_existing_data_buffers s chan dtype seg) of
          Inl e \<Rightarrow> False
        | Inr out \<Rightarrow> set out = {b \<in> set (all_buffers (buffers s)). matches chan dtype seg b})
    \<and> get_existing_data_buffers s c d g =
        (Inr (case map_of (buffers s) (BufferClass c d g) of Some v \<Rightarrow> v | None \<Rightarrow> []),
         if BufferClass c d g \<in> fst ` set (buffers s) then s
         else s\<lparr>buffers := buffers s @ [(BufferClass c d g, [])]\<rparr>)"
proof -
  from assms(2) have "\<not> (\<exists>b \<in> set (all_buffers (buffers s)). 2 \<le> mismatches chan dtype seg b)"
    by fastforce
  then have 1: "get_all_existing_data_buffers s chan dtype seg =
      (Inr (filter (matches chan dtype seg) (all_buffers (buffers s))), s)"
    by (simp only: get_all_existing_data_buffers_eq[OF assms(1)] if_False)
  have 2: "get_existing_data_buffers s c d g =
        (Inr (case map_of (buffers s) (BufferClass c d g) of Some v \<Rightarrow> v | None \<Rightarrow> []),
         if BufferClass c d g \<in> fst ` set (buffers s) then s
         else s\<lparr>buffers := buffers s @ [(BufferClass c d g, [])]\<rparr>)"
  proof (cases "map_of (buffers s) (BufferClass c d g)")
    case None
    then have "BufferClass c d g \<notin> fst ` set (buffers s)" by (simp add: map_of_eq_None_iff)
    with None show ?thesis by (simp add: get_existing_data_buffers_def dd_getitem_def)
  next
    case (Some v)
    then have "BufferClass c d g \<in> fst ` set (buffers s)"
      by (metis map_of_eq_None_iff option.distinct(1))
    with Some show ?thesis by (simp add: get_existing_data_buffers_def dd_getitem_def)
  qed
  from 1 2 show ?thesis by auto
qed

theorem queries_amended_witness:
  "snd (get_all_existing_data_buffers ex_session (Some 0) None (Some 0)) = ex_session
   \<and> (case fst (get_all_existing_data_buffers ex_session (Some 0) None (Some 0)) of
         Inl e \<Rightarrow> False
       | Inr out \<Rightarrow> set out = {ex_max, ex_min})
   \<and> get_existing_data_buffers ex_session 2 0 0 =
        (Inr [], ex_session\<lparr>buffers := buffers ex_session @ [(BufferClass 2 0 0, [])]\<rparr>)"
proof -
  have le: "\<forall>b \<in> set (all_buffers (buffers ex_session)). mismatches (Some 0) None (Some 0) b \<le> 1"
    by (simp add: all_buffers_def ex_defs mismatches_def)
  have m: "{b \<in> set (all_buffers (buffers ex_session)). matches (Some 0) None (Some 0) b} = {ex_max, ex_min}"
    by (auto simp: all_buffers_def ex_defs mismatches_def matches_def)
  have k: "BufferClass 2 0 0 \<notin> fst ` set (buffers ex_session)"
    "map_of (buffers ex_session) (BufferClass 2 0 0) = None"
    by (simp_all add: ex_defs)
  from queries_amended[OF registry_ok_ex_session le, of 2 0 0, unfolded m]
  show ?thesis by (simp add: k)
qed

text \<open>
  What holds of a successful registration followed by a successful clear of the class:
  the per-class query \<open>get_existing_data_buffers\<close> of that class returns the empty set;
  if the registry was one the code keeps, no buffer of that class is left anywhere in
  it, and the filtered query for the class either returns the empty set or raises
  \<open>KeyError\<close>.
\<close>

lemma register_then_clear_per_class:
  assumes "set_data_buffers drv1 s bmax bmin co = (Inr (), s1)"
    and "clear_data_buffers drv2 s1 (channel bmax) (data_type bmax) (segment bmax) = (Inr (), s2)"
  shows "fst (get_existing_data_buffers s2 (channel bmax) (data_type bmax) (segment bmax)) = Inr []
    \<and> (registry_ok (buffers s) \<longrightarrow>
         (case fst (get_all_existing_data_buffers s2
                     (Some (channel bmax)) (Some (data_type bmax)) (Some (segment bmax))) of
            Inl e \<Rightarrow> e = KeyError
          | Inr out \<Rightarrow> out = [])
         \<and> (\<forall>b \<in> set (all_buffers (buffers s2)). buffer_class b \<noteq> buffer_class bmax))"
proof -
  let ?k = "BufferClass (channel bmax) (data_type bmax) (segment bmax)"
  from assms(2) have s2: "buffers s2 = dd_modify (buffers s1) ?k (\<lambda>_. [])"
    by (auto simp: clear_data_buffers_flat Let_def split: if_splits)
  then have empty: "map_of (buffers s2) ?k = Some []"
    by (simp add: map_of_dd_modify)
  then have a: "fst (get_existing_data_buffers s2 (channel bmax) (data_type bmax) (segment bmax)) = Inr []"
    by (simp add: get_existing_data_buffers_eq)
  have b: "(case fst (get_all_existing_data_buffers s2
                     (Some (channel bmax)) (Some (data_type bmax)) (Some (segment bmax))) of
            Inl e \<Rightarrow> e = KeyError
          | Inr out \<Rightarrow> out = [])
         \<and> (\<forall>b \<in> set (all_buffers (buffers s2)). buffer_class b \<noteq> buffer_class bmax)"
    if ok: "registry_ok (buffers s)"
  proof -
    from registry_ok_set_data_buffers[OF ok, of drv1 bmax bmin co] assms(1)
    have "registry_ok (buffers s1)" by simp
    from registry_ok_clear_data_buffers[OF this, of drv2 "channel bmax" "data_type bmax" "segment bmax"]
      assms(2)
    have ok2: "registry_ok (buffers s2)" by simp
    have none: "\<not> matches (Some (channel bmax)) (Some (data_type bmax)) (Some (segment bmax)) b"
      if "b \<in> set (all_buffers (buffers s2))" for b
      using cleared_class_absent[OF ok2 empty that] .
    then have "filter (matches (Some (channel bmax)) (Some (data_type bmax)) (Some (segment bmax)))
                 (all_buffers (buffers s2)) = []"
      by (simp add: filter_empty_conv)
    then have 1: "(case fst (get_all_existing_data_buffers s2
                     (Some (channel bmax)) (Some (data_type bmax)) (Some (segment bmax))) of
            Inl e \<Rightarrow> e = KeyError
          | Inr out \<Rightarrow> out = [])"
      by (simp add: get_all_existing_data_buffers_eq[OF ok2])
    have 2: "buffer_class b \<noteq> buffer_class bmax" if "b \<in> set (all_buffers (buffers s2))" for b
      using registry_ok_lookup[OF ok2 that] empty by (auto simp: buffer_class_def)
    from 1 2 show ?thesis by blast
  qed
  from a b show ?thesis by blast
qed

lemmas query_eval_defs = get_all_existing_data_buffers_def gaedb_body_def remove_if_def
  set_remove_def set_add_def Buffer_eq_def Buffer_key_def

text \<open>
  C6 fails on the code where the query is the filtered query
  \<open>get_all_existing_data_buffers\<close> and the registry holds a buffer of another class that
  fails two of the three filters. On an open session holding such a buffer, registering
  a MAX and a MIN buffer for channel 0, data type 0, segment 0 succeeds, clearing that
  class succeeds, and the filtered query for that class then raises \<open>KeyError\<close> instead
  of returning the empty set: the buffer of the other class is removed from the result
  once for its channel and a second time for its data type.
\<close>

theorem register_then_clear_query_raises:
  "set_data_buffers (answering OK) ex_session_other ex_max (Some ex_min) False
     = (Inr (),
        ex_session_other
          \<lparr>buffers := [(BufferClass 1 1 0, [ex_other]), (BufferClass 0 0 0, [ex_max, ex_min])],
           trace := [Call_set_data_buffers
                       (SetDataBuffersArgs 1 0 (Some 4096) (Some 8192) 8 0 0 AGGREGATE ADD)]\<rparr>)
   \<and> clear_data_buffers (answering OK)
        (ex_session_other
          \<lparr>buffers := [(BufferClass 1 1 0, [ex_other]), (BufferClass 0 0 0, [ex_max, ex_min])],
           trace := [Call_set_data_buffers
                       (SetDataBuffersArgs 1 0 (Some 4096) (Some 8192) 8 0 0 AGGREGATE ADD)]\<rparr>)
        0 0 0
     = (Inr (),
        ex_session_other
          \<lparr>buffers := [(BufferClass 1 1 0, [ex_other]), (BufferClass 0 0 0, [])],
           trace := [Call_set_data_buffers
                       (SetDataBuffersArgs 1 0 (Some 4096) (Some 8192) 8 0 0 AGGREGATE ADD),
                     Call_set_data_buffers
                       (SetDataBuffersArgs 1 0 None None 0 0 0 RAW CLEAR_ALL)]\<rparr>)
   \<and> fst (get_all_existing_data_buffers
        (ex_session_other
          \<lparr>buffers := [(BufferClass 1 1 0, [ex_other]), (BufferClass 0 0 0, [])],
           trace := [Call_set_data_buffers
                       (SetDataBuffersArgs 1 0 (Some 4096) (Some 8192) 8 0 0 AGGREGATE ADD),
                     Call_set_data_buffers
                       (SetDataBuffersArgs 1 0 None None 0 0 0 RAW CLEAR_ALL)]\<rparr>)
        (Some 0) (Some 0) (Some 0)) = Inl KeyError"
  by (simp add: eval_defs query_eval_defs ex_defs ex_session_other_def)

section \<open>Callback trampolines\<close>



















section \<open>Pairing\<close>

lemma set_update_cases:
  "x \<in> set (AList.update k v al) \<Longrightarrow> x = (k, v) \<or> x \<in> set al"
  by (induction al) (auto split: if_splits)

lemma pairs_set0_slot1:
  assumes "\<forall>x \<in> set p. snd (snd x) = None"
  shows "\<forall>x \<in> set (pairs_set0 p k b). snd (snd x) = None"
proof (cases "map_of p k")
  case None
  then have eq: "pairs_set0 p k b = AList.update k (Some b, None) (p @ [(k, (None, None))])"
    by (simp add: pairs_set0_def pairs_getitem_def)
  show ?thesis
  proof
    fix x assume "x \<in> set (pairs_set0 p k b)"
    with eq set_update_cases[of x k "(Some b, None)" "p @ [(k, (None, None))]"]
    have "x = (k, (Some b, None)) \<or> x \<in> set p \<or> x = (k, (None, None))" by auto
    with assms show "snd (snd x) = None" by auto
  qed
next
  case (Some sl)
  obtain s0 s1 where sl: "sl = (s0, s1)" by (cases sl)
  from Some sl have "(k, (s0, s1)) \<in> set p" by (simp add: map_of_SomeD)
  with assms have s1: "s1 = None" by force
  from Some sl s1 have eq: "pairs_set0 p k b = AList.update k (Some b, None) p"
    by (simp add: pairs_set0_def pairs_getitem_def)
  show ?thesis
  proof
    fix x assume "x \<in> set (pairs_set0 p k b)"
    with eq set_update_cases[of x k "(Some b, None)" p]
    have "x = (k, (Some b, None)) \<or> x \<in> set p" by auto
    with assms show "snd (snd x) = None" by auto
  qed
qed

lemma pairs_body_slot1:
  "\<forall>x \<in> set p. snd (snd x) = None \<Longrightarrow> \<forall>x \<in> set (pairs_body b p). snd (snd x) = None"
  by (cases "max_min b") (simp_all add: pairs_body_def Let_def pairs_set0_slot1)

lemma fold_pairs_body_slot1:
  "\<forall>x \<in> set p. snd (snd x) = None \<Longrightarrow> \<forall>x \<in> set (fold pairs_body bs p). snd (snd x) = None"
proof (induction bs arbitrary: p)
  case Nil
  then show ?case by simp
next
  case (Cons b bs)
  from Cons.IH[OF pairs_body_slot1[OF Cons.prems]] show ?case by simp
qed

lemma pairs_of_slot1: "\<forall>x \<in> set (pairs_of d). snd (snd x) = None"
proof -
  have "\<forall>x \<in> set (fold (\<lambda>bclass p. fold pairs_body bclass p) bss p). snd (snd x) = None"
    if "\<forall>x \<in> set p. snd (snd x) = None" for bss p
    using that
  proof (induction bss arbitrary: p)
    case Nil
    then show ?case by simp
  next
    case (Cons bs bss)
    from Cons.IH[OF fold_pairs_body_slot1[OF Cons.prems]] show ?case by simp
  qed
  from this[of "[]" "map snd d"] show ?thesis by (simp add: pairs_of_def)
qed

lemma pairs_collect_slot1:
  "\<forall>sl \<in> set sls. snd sl = None \<Longrightarrow> \<forall>x \<in> set out. snd x = None \<Longrightarrow>
     \<forall>x \<in> set (fst (pairs_collect sls out s)). snd x = None"
proof (induction sls arbitrary: out s)
  case Nil
  then show ?case by simp
next
  case (Cons sl sls)
  obtain s0 s1 where sl: "sl = (s0, s1)" by (cases sl)
  with Cons.prems(1) have s1: "s1 = None" and rest: "\<forall>sl \<in> set sls. snd sl = None" by simp_all
  show ?case
  proof (cases s0)
    case None
    with sl Cons.IH[OF rest Cons.prems(2)] show ?thesis by simp
  next
    case (Some bmax)
    from Cons.prems(2) s1 have "\<forall>x \<in> set (out_add out (bmax, s1)). snd x = None"
      by (simp add: out_add_def)
    from Cons.IH[OF rest this] sl Some show ?thesis by simp
  qed
qed

text \<open>
  Whatever the registry holds, no pair returned by \<open>get_existing_data_buffer_pairs\<close> has
  a MIN buffer: slot 1 of a pair is never written.
\<close>

lemma pairs_min_slot_empty:
  "fst (get_existing_data_buffer_pairs s chan dtype seg) = Inr out \<Longrightarrow>
     \<forall>x \<in> set out. snd x = None"
proof -
  assume a: "fst (get_existing_data_buffer_pairs s chan dtype seg) = Inr out"
  have "\<forall>sl \<in> set (map snd (pairs_of (buffers s))). snd sl = None"
    using pairs_of_slot1[of "buffers s"] by auto
  from pairs_collect_slot1[OF this, of "[]" s] a show ?thesis
    by (simp add: get_existing_data_buffer_pairs_def split: prod.splits)
qed

lemmas pairs_eval_defs = get_existing_data_buffer_pairs_def pairs_of_def pairs_body_def
  pairs_set0_def pairs_getitem_def out_add_def pair_eq_def Buffer_eq_def Buffer_key_def Let_def

text \<open>
  C1 fails on the code. Both branches of the first loop of
  \<open>get_existing_data_buffer_pairs\<close> store the buffer in slot 0 of its pair, the MIN
  branch too. On a session that holds a MAX and a MIN buffer of one class and mode, and
  a MAX buffer of another class, the method returns a single pair for the first two,
  holding the one of them the iteration of the set reached last, with an absent MIN
  slot: iterating the MAX buffer first loses the MAX buffer, and in either order the MIN
  buffer is in no MIN slot. (The method also ignores its three arguments: the buffer of
  the other class is paired too.)
\<close>

theorem pairs_lose_buffers:
  "get_existing_data_buffer_pairs ex_session 0 0 0
     = (Inr [(ex_min, None), (ex_other, None)], ex_session)
   \<and> get_existing_data_buffer_pairs
        (ex_session\<lparr>buffers := [(BufferClass 0 0 0, [ex_min, ex_max]), (BufferClass 1 1 0, [ex_other])]\<rparr>)
        0 0 0
     = (Inr [(ex_max, None), (ex_other, None)],
        ex_session\<lparr>buffers := [(BufferClass 0 0 0, [ex_min, ex_max]), (BufferClass 1 1 0, [ex_other])]\<rparr>)"
  by (simp add: pairs_eval_defs ex_defs)

section \<open>Opening while a unit is open\<close>

text \<open>
  C9 fails on the code for \<open>open_unit_async\<close>. On an open session and a device that
  answers \<open>OK\<close>, \<open>open_unit\<close> and \<open>open_unit_progress\<close> warn, close the unit and then call
  the device to open; \<open>open_unit_async\<close> warns and calls the device to open without
  closing: \<open>ll.close_unit\<close> is not called and the stored handle stays.
\<close>

theorem open_unit_async_does_not_close:
  "open_unit_async (answering OK) ex_session None 0
     = (Inr True,
        ex_session\<lparr>trace := [LogWarning ''open_unit_async called while a unit is already open.'',
                              Call_open_unit_async None 0]\<rparr>)
   \<and> open_unit (answering OK) ex_session None 0
     = (Inr True,
        ex_session\<lparr>trace := [LogWarning ''open_unit called while a unit is already open.'',
                              Call_close_unit 1, Call_open_unit None 0]\<rparr>)
   \<and> open_unit_progress (answering OK) ex_session
     = (Inr True,
        ex_session\<lparr>trace := [LogWarning ''open_unit_progress called while a unit is already open.'',
                              Call_close_unit 1, Call_open_unit_progress]\<rparr>)"
  by (simp add: open_unit_async_def open_unit_def open_unit_progress_def close_unit_def
      handle_def valid_def verify_status_def emit_def Let_def ex_defs)

text \<open>
  In general: on an open session \<open>open_unit\<close> and \<open>open_unit_progress\<close> first warn and
  call \<open>ll.close_unit\<close> with the stored handle, whatever the device answers, while
  \<open>open_unit_async\<close> never calls it.
\<close>

lemma close_unit_open:
  "raw_handle s = Some h \<Longrightarrow> 0 < h \<Longrightarrow>
     close_unit drv s =
       (if ll_close_unit drv h = OK
        then (Inr (), s\<lparr>trace := trace s @ [Call_close_unit h],
                          last_status := OK, raw_handle := None\<rparr>)
        else (Inl (PicoStatusError (ll_close_unit drv h)),
              s\<lparr>trace := trace s @ [Call_close_unit h],
                 last_status := ll_close_unit drv h\<rparr>))"
  by (simp add: close_unit_def handle_def valid_def verify_status_def emit_def Let_def
      PicoStatusError_init_def)

lemma open_unit_closes_first:
  assumes "is_open s"
  shows "take (length (trace s) + 2) (trace (snd (open_unit drv s serial resolution)))
           = trace s @ [LogWarning ''open_unit called while a unit is already open.'',
                        Call_close_unit (the (raw_handle s))]"
proof -
  from assms obtain h where h: "raw_handle s = Some h" "0 < h"
    by (auto simp: is_open_def valid_def)
  obtain st h' where ll: "ll_open_unit drv serial resolution = (st, h')"
    by (cases "ll_open_unit drv serial resolution")
  show ?thesis
    using h ll
    by (simp add: open_unit_def valid_def emit_def close_unit_open[of _ h] verify_status_def Let_def)
qed

lemma open_unit_progress_closes_first:
  assumes "is_open s"
  shows "take (length (trace s) + 2) (trace (snd (open_unit_progress drv s)))
           = trace s @ [LogWarning ''open_unit_progress called while a unit is already open.'',
                        Call_close_unit (the (raw_handle s))]"
proof -
  from assms obtain h where h: "raw_handle s = Some h" "0 < h"
    by (auto simp: is_open_def valid_def)
  obtain st h' pr co where ll: "ll_open_unit_progress drv = (st, h', pr, co)"
    by (cases "ll_open_unit_progress drv")
  show ?thesis
    using h ll
    by (simp add: open_unit_progress_def valid_def emit_def close_unit_open[of _ h]
        verify_status_def Let_def)
qed

lemma open_unit_async_never_closes:
  "trace (snd (open_unit_async drv s serial resolution))
     = trace s @ (if is_open s
                  then [LogWarning ''open_unit_async called while a unit is already open.'']
                  else []) @ [Call_open_unit_async serial resolution]"
proof -
  obtain st st2 where ll: "ll_open_unit_async drv serial resolution = (st, st2)"
    by (cases "ll_open_unit_async drv serial resolution")
  then show ?thesis
    by (simp add: open_unit_async_def is_open_def verify_status_def emit_def Let_def)
qed

section \<open>Status translation\<close>

lemma mismatches_one_filter: "mismatches None None seg b \<le> 1"
  by (simp add: mismatches_def)

lemma gaedb_inner_returns:
  "\<forall>b \<in> set bs. mismatches chan dtype seg b \<le> 1 \<Longrightarrow>
     \<exists>out'. gaedb_inner chan dtype seg bs out = Inr out'"
proof (induction bs arbitrary: out)
  case Nil
  show ?case by simp
next
  case (Cons b bs)
  from Cons.prems have b: "\<not> 2 \<le> mismatches chan dtype seg b"
    and rest: "\<forall>b \<in> set bs. mismatches chan dtype seg b \<le> 1" by simp_all
  from b have "\<exists>out1. gaedb_body chan dtype seg b out = Inr out1"
    by (simp add: gaedb_body_eq)
  then obtain out1 where "gaedb_body chan dtype seg b out = Inr out1" ..
  with Cons.IH[OF rest, of out1] show ?case by simp
qed

lemma get_all_one_filter:
  "\<exists>bufs. get_all_existing_data_buffers s None None seg = (Inr bufs, s)"
proof -
  have "\<forall>b \<in> set (concat (map snd (buffers s))). mismatches None None seg b \<le> 1"
    by (intro ballI mismatches_one_filter)
  from gaedb_inner_returns[OF this, of "[]"] show ?thesis
    by (auto simp: get_all_existing_data_buffers_def gaedb_outer_concat)
qed

lemma get_streaming_latest_values_eq:
  assumes "is_open s"
  shows "\<exists>infos. (\<forall>x. sdi = Some x \<longrightarrow> infos = x) \<and>
     get_streaming_latest_values drv s sdi =
       (case ll_get_streaming_latest_values drv (the (raw_handle s)) infos of
          (status, arrays) \<Rightarrow>
            (if status \<noteq> OK \<and> status \<noteq> WAITING_FOR_DATA_BUFFERS
             then Inl (PicoStatusError status)
             else Inr (status = WAITING_FOR_DATA_BUFFERS, arrays),
             s\<lparr>trace := trace s @ [Call_get_streaming_latest_values (the (raw_handle s)) infos],
               last_status := status\<rparr>))"
proof -
  from assms have h: "handle s = (Inr (the (raw_handle s)), s)"
    by (simp add: handle_def is_open_def)
  from get_all_one_filter[of s "Some 0"] obtain bufs where
    g: "get_all_existing_data_buffers s None None (Some 0) = (Inr bufs, s)" ..
  let ?infos = "case sdi of Some x \<Rightarrow> x | None \<Rightarrow> map empty_streaming_info bufs"
  obtain st arr where ll: "ll_get_streaming_latest_values drv (the (raw_handle s)) ?infos = (st, arr)"
    by (cases "ll_get_streaming_latest_values drv (the (raw_handle s)) ?infos")
  have "get_streaming_latest_values drv s sdi =
       (if st \<noteq> OK \<and> st \<noteq> WAITING_FOR_DATA_BUFFERS
        then Inl (PicoStatusError st)
        else Inr (st = WAITING_FOR_DATA_BUFFERS, arr),
        s\<lparr>trace := trace s @ [Call_get_streaming_latest_values (the (raw_handle s)) ?infos],
          last_status := st\<rparr>)"
    using h g ll
    by (cases sdi)
       (simp_all add: get_streaming_latest_values_def Let_def emit_def PicoStatusError_init_def)
  then show ?thesis
    by (intro exI[of _ ?infos]) (simp add: ll)
qed

text \<open>
  C2. \<open>_verify_status\<close> returns without raising for \<open>OK\<close> and raises
  \<open>PicoStatusError\<close> carrying the status for every other status; the status is recorded
  as \<open>last_status\<close> either way. \<open>get_streaming_latest_values\<close> on an open session,
  with the input structures given or made from the registry: when the device answers
  \<open>OK\<close> it returns with the flag \<open>full\<close> false, when the device answers
  \<open>WAITING_FOR_DATA_BUFFERS\<close> it returns with \<open>full\<close> true, and for every other status it
  raises \<open>PicoStatusError\<close> carrying that status; the status is recorded as \<open>last_status\<close>.
\<close>

theorem status_translation:
  "verify_status s OK = (Inr (), s\<lparr>last_status := OK\<rparr>)
   \<and> (status \<noteq> OK \<longrightarrow>
        verify_status s status = (Inl (PicoStatusError status), s\<lparr>last_status := status\<rparr>))
   \<and> (is_open s \<and> (\<forall>h infos. fst (ll_get_streaming_latest_values drv h infos) = status) \<longrightarrow>
        map_sum id fst (fst (get_streaming_latest_values drv s sdi)) =
          (if status = OK then Inr False
           else if status = WAITING_FOR_DATA_BUFFERS then Inr True
           else Inl (PicoStatusError status))
        \<and> last_status (snd (get_streaming_latest_values drv s sdi)) = status)"
proof -
  have 1: "verify_status s OK = (Inr (), s\<lparr>last_status := OK\<rparr>)"
    by (simp add: verify_status_def)
  have 2: "verify_status s status = (Inl (PicoStatusError status), s\<lparr>last_status := status\<rparr>)"
    if "status \<noteq> OK"
    using that by (simp add: verify_status_def PicoStatusError_init_def)
  have 3: "map_sum id fst (fst (get_streaming_latest_values drv s sdi)) =
          (if status = OK then Inr False
           else if status = WAITING_FOR_DATA_BUFFERS then Inr True
           else Inl (PicoStatusError status))
        \<and> last_status (snd (get_streaming_latest_values drv s sdi)) = status"
    if o: "is_open s" and d: "\<forall>h infos. fst (ll_get_streaming_latest_values drv h infos) = status"
  proof -
    from get_streaming_latest_values_eq[OF o, of sdi drv] obtain infos where
      e: "get_streaming_latest_values drv s sdi =
       (case ll_get_streaming_latest_values drv (the (raw_handle s)) infos of
          (status, arrays) \<Rightarrow>
            (if status \<noteq> OK \<and> status \<noteq> WAITING_FOR_DATA_BUFFERS
             then Inl (PicoStatusError status)
             else Inr (status = WAITING_FOR_DATA_BUFFERS, arrays),
             s\<lparr>trace := trace s @ [Call_get_streaming_latest_values (the (raw_handle s)) infos],
               last_status := status\<rparr>))" by blast
    obtain arrays where "ll_get_streaming_latest_values drv (the (raw_handle s)) infos = (status, arrays)"
      using d by (metis prod.collapse)
    with e show ?thesis
      by (auto simp: OK_def WAITING_FOR_DATA_BUFFERS_def)
  qed
  from 1 2 3 show ?thesis by blast
qed

theorem status_translation_witness:
  "verify_status ex_session OK = (Inr (), ex_session)
   \<and> verify_status ex_session 5 = (Inl (PicoStatusError 5), ex_session\<lparr>last_status := 5\<rparr>)
   \<and> fst (get_streaming_latest_values (answering WAITING_FOR_DATA_BUFFERS) ex_session None)
       = Inr (True, ())
   \<and> fst (get_streaming_latest_values (answering OK) ex_session None) = Inr (False, ())
   \<and> fst (get_streaming_latest_values (answering 5) ex_session None) = Inl (PicoStatusError 5)"
proof -
  have o: "is_open ex_session" by (simp add: is_open_def valid_def ex_session_def)
  have d: "\<forall>h infos. fst (ll_get_streaming_latest_values (answering st) h infos) = st" for st
    by (simp add: answering_def)
  have n: "(5::int) \<noteq> OK" "(5::int) \<noteq> WAITING_FOR_DATA_BUFFERS" "WAITING_FOR_DATA_BUFFERS \<noteq> OK"
    by (simp_all add: OK_def WAITING_FOR_DATA_BUFFERS_def)
  have u: "x = Inr (b, ())" if "map_sum id fst x = Inr b" for x :: "error + bool \<times> unit" and b
    using that by (cases x) auto
  have v: "x = Inl e" if "map_sum id fst x = Inl e" for x :: "error + bool \<times> unit" and e
    using that by (cases x) auto
  from status_translation[of ex_session 5 "answering 5" None]
    status_translation[of ex_session OK "answering OK" None]
    status_translation[of ex_session WAITING_FOR_DATA_BUFFERS "answering WAITING_FOR_DATA_BUFFERS" None]
    o d n
  show ?thesis by (auto simp: ex_session_def intro: u v)
qed

section \<open>Handle guard\<close>

text \<open>
  C8. The handle accessor returns the stored handle exactly when one is stored and it
  is strictly positive. Otherwise it raises \<open>PicoHandleError\<close> carrying the stored value,
  with one message when no handle is stored, another when it is negative, a third when
  it is zero; the three messages differ, and the session is left as it was.
\<close>

theorem handle_cases:
  "handle s =
     (case raw_handle s of
        None \<Rightarrow> (Inl (PicoHandleError None msg_never_opened), s)
      | Some h \<Rightarrow>
          if 0 < h then (Inr h, s)
          else if h < 0 then (Inl (PicoHandleError (Some h) msg_open_failed), s)
          else (Inl (PicoHandleError (Some 0) msg_not_found), s))
   \<and> msg_never_opened \<noteq> msg_open_failed
   \<and> msg_never_opened \<noteq> msg_not_found
   \<and> msg_open_failed \<noteq> msg_not_found"
  by (auto simp: handle_def valid_def PicoHandleError_init_def msg_never_opened_def
      msg_open_failed_def msg_not_found_def split: option.splits)

theorem handle_cases_witness:
  "handle ex_session = (Inr 1, ex_session)
   \<and> handle init = (Inl (PicoHandleError None msg_never_opened), init)
   \<and> handle (init\<lparr>raw_handle := Some (- 1)\<rparr>)
       = (Inl (PicoHandleError (Some (- 1)) msg_open_failed), init\<lparr>raw_handle := Some (- 1)\<rparr>)
   \<and> handle (init\<lparr>raw_handle := Some 0\<rparr>)
       = (Inl (PicoHandleError (Some 0) msg_not_found), init\<lparr>raw_handle := Some 0\<rparr>)"
  using handle_cases[of ex_session] handle_cases[of init]
    handle_cases[of "init\<lparr>raw_handle := Some (- 1)\<rparr>"] handle_cases[of "init\<lparr>raw_handle := Some 0\<rparr>"]
  by (simp add: ex_session_def init_def)

end
